theory Spec2Isabelle
  imports Main "HOL-Library.Word" "HOL-Library.AList"
begin

section \<open>Strings\<close>

text \<open>
  A JavaScript string is a sequence of 16-bit UTF-16 code units; \<open>str.length\<close>,
  \<open>str.charAt(i)\<close> and \<open>str.charCodeAt(i)\<close> all work on code units. The emitted
  expression text is a string of the same kind. \<open>ascii\<close> writes an ASCII literal.
\<close>

type_synonym jsstring = "16 word list"

definition ascii :: "string \<Rightarrow> jsstring" where
  "ascii s = map of_char s"

definition quote :: "16 word" where
  "quote = 0x22"

definition backslash :: "16 word" where
  "backslash = 0x5C"

text \<open>\<open>Array.prototype.join\<close> on an array of strings.\<close>

fun join :: "jsstring \<Rightarrow> jsstring list \<Rightarrow> jsstring" where
  "join sep [] = []"
| "join sep [x] = x"
| "join sep (x # y # ys) = x @ sep @ join sep (y # ys)"

text \<open>
  \<^verbatim>\<open>const chars = 'abcdefghijklmnopqrstuvwxyzABCDEFGHIJKLMNOPQRSTUVWXYZ_$';\<close>
\<close>

definition chars :: jsstring where
  "chars = ascii ''abcdefghijklmnopqrstuvwxyzABCDEFGHIJKLMNOPQRSTUVWXYZ_$''"

text \<open>
  The character class of \<^verbatim>\<open>unsafeChars\<close>: the two angle brackets, backspace (which is
  what \<^verbatim>\<open>\b\<close> means inside a class), form feed, line feed, carriage return, tab, NUL,
  and the separators U+2028 and U+2029.
\<close>

definition unsafeChars :: "16 word list" where
  "unsafeChars = [0x3C, 0x3E, 0x08, 0x0C, 0x0A, 0x0D, 0x09, 0x00, 0x2028, 0x2029]"

text \<open>The words that \<^verbatim>\<open>reserved\<close> matches (the pattern is anchored at both ends).\<close>

definition reserved :: "jsstring list" where
  "reserved = map ascii
     [''do'', ''if'', ''in'', ''for'', ''int'', ''let'', ''new'', ''try'', ''var'', ''byte'',
      ''case'', ''char'', ''else'', ''enum'', ''goto'', ''long'', ''this'', ''void'', ''with'',
      ''await'', ''break'', ''catch'', ''class'', ''const'', ''final'', ''float'', ''short'',
      ''super'', ''throw'', ''while'', ''yield'', ''delete'', ''double'', ''export'', ''import'',
      ''native'', ''return'', ''switch'', ''throws'', ''typeof'', ''boolean'', ''default'',
      ''extends'', ''finally'', ''package'', ''private'', ''abstract'', ''continue'',
      ''debugger'', ''function'', ''volatile'', ''interface'', ''protected'', ''transient'',
      ''implements'', ''instanceof'', ''synchronized'']"

text \<open>
  The table \<^verbatim>\<open>escaped\<close>, keyed by a one-unit string. Its values are written with
  the backslash as the code unit \<open>0x5C\<close>.
\<close>

definition escaped :: "(16 word \<times> jsstring) list" where
  "escaped =
     [(0x3C, backslash # ascii ''u003C''),
      (0x3E, backslash # ascii ''u003E''),
      (0x2F, backslash # ascii ''u002F''),
      (0x5C, [backslash, backslash]),
      (0x08, backslash # ascii ''b''),
      (0x0C, backslash # ascii ''f''),
      (0x0A, backslash # ascii ''n''),
      (0x0D, backslash # ascii ''r''),
      (0x09, backslash # ascii ''t''),
      (0x00, backslash # ascii ''0''),
      (0x2028, backslash # ascii ''u2028''),
      (0x2029, backslash # ascii ''u2029'')]"

text \<open>
  \<^verbatim>\<open>code.toString(16).toUpperCase()\<close>: the digits of a non-negative integer in
  base 16, most significant first, then upper-cased.
\<close>

definition hexdigit :: "nat \<Rightarrow> 16 word" where
  "hexdigit d = ascii ''0123456789abcdef'' ! d"

function toString16 :: "nat \<Rightarrow> jsstring" where
  "toString16 n = (if n < 16 then [hexdigit n] else toString16 (n div 16) @ [hexdigit (n mod 16)])"
  by pat_completeness auto
termination
  by (relation "measure id") auto

definition toUpperCase_unit :: "16 word \<Rightarrow> 16 word" where
  "toUpperCase_unit c = (if 0x61 \<le> c \<and> c \<le> 0x7A then c - 0x20 else c)"

definition toUpperCase :: "jsstring \<Rightarrow> jsstring" where
  "toUpperCase s = map toUpperCase_unit s"

text \<open>
  \<^verbatim>\<open>stringifyString\<close>: the loop over \<open>i\<close> becomes recursion over the units not yet
  read, \<open>result\<close> is the accumulator. \<open>str.charCodeAt(i + 1)\<close> past the end is NaN,
  for which both comparisons are false: the case \<open>[]\<close> of the look-ahead.
  \<open>char in escaped\<close> holds exactly for the twelve keys of the table (no property that
  an object literal inherits has a one-unit name).
\<close>

fun stringifyString_loop :: "jsstring \<Rightarrow> jsstring \<Rightarrow> jsstring" where
  "stringifyString_loop [] result = result"
| "stringifyString_loop (c # rest) result =
     (if c = quote then stringifyString_loop rest (result @ [backslash, quote])
      else
        (case map_of escaped c of
           Some e \<Rightarrow> stringifyString_loop rest (result @ e)
         | None \<Rightarrow>
             if 0xD800 \<le> c \<and> c \<le> 0xDFFF then
               (case rest of
                  [] \<Rightarrow>
                    stringifyString_loop rest
                      (result @ backslash # ascii ''u'' @ toUpperCase (toString16 (unat c)))
                | next # rest' \<Rightarrow>
                    if c \<le> 0xDBFF \<and> 0xDC00 \<le> next \<and> next \<le> 0xDFFF
                    then stringifyString_loop rest' (result @ [c, next])
                    else stringifyString_loop rest
                      (result @ backslash # ascii ''u'' @ toUpperCase (toString16 (unat c))))
             else stringifyString_loop rest (result @ [c])))"

definition stringifyString :: "jsstring \<Rightarrow> jsstring" where
  "stringifyString str = stringifyString_loop str [quote] @ [quote]"

text \<open>\<^verbatim>\<open>escapeUnsafeChar\<close>: every value of the table is a non-empty string, so
  \<open>escaped[c] || c\<close> is the entry when there is one.\<close>

definition escapeUnsafeChar :: "16 word \<Rightarrow> jsstring" where
  "escapeUnsafeChar c = (case map_of escaped c of Some e \<Rightarrow> e | None \<Rightarrow> [c])"

definition escapeUnsafeChars :: "jsstring \<Rightarrow> jsstring" where
  "escapeUnsafeChars str =
     concat (map (\<lambda>c. if c \<in> set unsafeChars then escapeUnsafeChar c else [c]) str)"

text \<open>The pattern \<^verbatim>\<open>/^[_$a-zA-Z][_$a-zA-Z0-9]*$/\<close>.\<close>

definition ident_start :: "16 word \<Rightarrow> bool" where
  "ident_start c \<longleftrightarrow>
     c = 0x5F \<or> c = 0x24 \<or> (0x61 \<le> c \<and> c \<le> 0x7A) \<or> (0x41 \<le> c \<and> c \<le> 0x5A)"

definition ident_part :: "16 word \<Rightarrow> bool" where
  "ident_part c \<longleftrightarrow> ident_start c \<or> (0x30 \<le> c \<and> c \<le> 0x39)"

fun is_identifier :: "jsstring \<Rightarrow> bool" where
  "is_identifier [] = False"
| "is_identifier (c # cs) = (ident_start c \<and> list_all ident_part cs)"

text \<open>
  \<^verbatim>\<open>getName\<close>: the do-while loop; \<open>~~(num / chars.length) - 1\<close> is negative exactly
  when the quotient is 0, which ends the loop.
\<close>

function getName_loop :: "nat \<Rightarrow> jsstring \<Rightarrow> jsstring" where
  "getName_loop num name =
     (let name' = chars ! (num mod length chars) # name
      in if num div length chars = 0 then name'
         else getName_loop (num div length chars - 1) name')"
  by pat_completeness auto
termination
  by (relation "measure fst") (auto simp: chars_def ascii_def)

definition getName :: "nat \<Rightarrow> jsstring" where
  "getName num =
     (let name = getName_loop num []
      in if name \<in> set reserved then name @ ascii ''0'' else name)"





section \<open>Values, objects and the store\<close>

text \<open>
  Numbers: the integer-valued doubles (\<open>Finite i\<close>, meant for \<open>\<bar>i\<bar> \<le> 2 ^ 53\<close>, where
  \<open>String\<close> prints the decimal digits), negative zero, NaN and the two infinities.
  Numbers with a fractional part are outside the model.
\<close>

datatype jsnum = Finite int | NegZero | NaN | PosInfinity | NegInfinity

text \<open>
  A value is a primitive or a reference to an object of the store. Identity of an object
  is its address. Symbols and BigInts as values are outside the model.
\<close>

type_synonym addr = nat

datatype val = Undefined | Null | Bool bool | Num jsnum | Str jsstring | Ref addr

datatype boxed = BoxedNumber jsnum | BoxedString jsstring | BoxedBoolean bool

text \<open>
  The prototype of a keyed object, as far as \<^verbatim>\<open>walk\<close> and \<^verbatim>\<open>stringify\<close> look at it:
  \<open>Object.prototype\<close>, \<open>null\<close>, or another object. For another object the model keeps
  \<open>Object.getOwnPropertyNames(proto).sort().join('\0')\<close> and what
  \<open>thing.constructor.name\<close> prints in the diagnostic (\<open>None\<close> when
  \<open>thing.constructor\<close> is undefined, so that reading \<open>.name\<close> throws a TypeError).
\<close>

datatype proto = ObjectPrototype | NullPrototype | OtherPrototype jsstring "jsstring option"

text \<open>
  What a function of the input does when it is called as \<open>thing.toJSON()\<close>: it returns
  a value or throws. The model covers conversion methods that are pure: they neither write
  to the store nor allocate, and return the same value at every call.
\<close>

datatype outcome = Returns val | Throws

text \<open>
  A keyed object (\<open>getType\<close> is none of Number, String, Boolean, Date, RegExp, Array,
  Set, Map): a plain record, a record without prototype, an instance of a class, or a
  function (\<open>callable\<close> is its name and what a call does; \<open>typeof thing\<close> is
  \<open>'function'\<close> exactly for these). \<open>props\<close> are the own enumerable string-keyed
  properties in creation order, \<open>symbols\<close> the own symbol keys as
  \<open>symbol.toString()\<close> prints them, \<open>inherited_toJSON\<close> the value of \<open>toJSON\<close>
  found on the prototype chain (\<open>Undefined\<close> when there is none).
\<close>

record keyed =
  callable :: "(jsstring \<times> outcome) option"
  proto :: proto
  symbols :: "jsstring list"
  inherited_toJSON :: val
  props :: "(jsstring \<times> val) list"

text \<open>
  Objects. An array is its list of slots, \<open>None\<close> for a hole. A Set is its members and a
  Map its entries, both in insertion order. A Date is its \<open>getTime()\<close>, a RegExp its
  \<open>toString()\<close>.
\<close>

datatype obj =
    BoxedObj boxed
  | DateObj jsnum
  | RegExpObj jsstring
  | ArrayObj "val option list"
  | SetObj "val list"
  | MapObj "(val \<times> val) list"
  | KeyedObj keyed

type_synonym heap = "addr \<Rightarrow> obj"

datatype error = TypeError | RangeError | Thrown

text \<open>
  The module's environment: the configured cap \<^verbatim>\<open>logLimit\<close>, the constant
  \<^verbatim>\<open>objectProtoOwnPropertyNames\<close> computed from the engine's \<open>Object.prototype\<close>,
  and the two built-ins of the engine that the module calls. \<open>JSON_parse\<close> gives
  \<open>None\<close> when \<open>JSON.parse\<close> throws; otherwise the parsed value, in a store that holds
  the objects it built. \<open>JSON_stringify\<close> is \<open>JSON.stringify\<close> on a string.
  \<open>parseInt(...) || 99\<close> is never 0; a negative cap lets no diagnostic through, as the
  cap 0 does here.
\<close>

record env =
  logLimit :: nat
  objectProtoOwnPropertyNames :: jsstring
  JSON_parse :: "jsstring \<Rightarrow> heap \<Rightarrow> (val \<times> heap) option"
  JSON_stringify :: "jsstring \<Rightarrow> jsstring"

subsection \<open>The built-in Map\<close>

text \<open>
  A \<open>Map\<close> keeps its entries in insertion order and compares keys by SameValueZero:
  NaN equals NaN, objects are equal when they are the same object, and \<open>-0\<close> is the
  key \<open>+0\<close> (\<open>set\<close> stores \<open>+0\<close>). \<open>set\<close> on a key that is present keeps its place.
\<close>

definition key_of :: "val \<Rightarrow> val" where
  "key_of v = (if v = Num NegZero then Num (Finite 0) else v)"

definition Map_get :: "(val \<times> 'a) list \<Rightarrow> val \<Rightarrow> 'a option" where
  "Map_get m k = map_of m (key_of k)"

definition Map_set :: "(val \<times> 'a) list \<Rightarrow> val \<Rightarrow> 'a \<Rightarrow> (val \<times> 'a) list" where
  "Map_set m k v = AList.update (key_of k) v m"

definition Map_delete :: "(val \<times> 'a) list \<Rightarrow> val \<Rightarrow> (val \<times> 'a) list" where
  "Map_delete m k = AList.delete (key_of k) m"

text \<open>
  A count of the table \<^verbatim>\<open>counts\<close>. \<open>counts.get(json) + 1\<close> is NaN when \<open>json\<close> has no
  entry (\<open>undefined + 1\<close>), and NaN stays NaN.
\<close>

datatype count = Count nat | NaN_count

fun plus1 :: "count option \<Rightarrow> count" where
  "plus1 (Some (Count n)) = Count (n + 1)"
| "plus1 (Some NaN_count) = NaN_count"
| "plus1 None = NaN_count"

subsection \<open>Numbers and keys as text\<close>

definition digit :: "nat \<Rightarrow> 16 word" where
  "digit d = ascii ''0123456789'' ! d"

function decimal :: "nat \<Rightarrow> jsstring" where
  "decimal n = (if n < 10 then [digit n] else decimal (n div 10) @ [digit (n mod 10)])"
  by pat_completeness auto
termination
  by (relation "measure id") auto

text \<open>\<open>String(thing)\<close> for a number of the model.\<close>

fun String_number :: "jsnum \<Rightarrow> jsstring" where
  "String_number (Finite i) = (if i < 0 then ascii ''-'' @ decimal (nat (- i)) else decimal (nat i))"
| "String_number NegZero = ascii ''0''"
| "String_number NaN = ascii ''NaN''"
| "String_number PosInfinity = ascii ''Infinity''"
| "String_number NegInfinity = ascii ''-Infinity''"

text \<open>\<^verbatim>\<open>str.replace(/^(-)?0\./, '$1.')\<close>\<close>

definition strip_leading_zero :: "jsstring \<Rightarrow> jsstring" where
  "strip_leading_zero str =
     (if take 2 str = ascii ''0.'' then drop 1 str
      else if take 3 str = ascii ''-0.'' then ascii ''-'' @ drop 2 str
      else str)"

text \<open>
  \<^verbatim>\<open>stringifyPrimitive\<close>, for the primitives of the model (a \<open>Ref\<close> is never passed:
  every caller tests \<open>isPrimitive\<close> first).
\<close>

fun stringifyPrimitive :: "val \<Rightarrow> jsstring" where
  "stringifyPrimitive (Str s) = stringifyString s"
| "stringifyPrimitive Undefined = ascii ''void 0''"
| "stringifyPrimitive (Num NegZero) = ascii ''-0''"
| "stringifyPrimitive (Num n) = strip_leading_zero (String_number n)"
| "stringifyPrimitive Null = ascii ''null''"
| "stringifyPrimitive (Bool b) = (if b then ascii ''true'' else ascii ''false'')"
| "stringifyPrimitive (Ref a) = []"

fun isPrimitive :: "val \<Rightarrow> bool" where
  "isPrimitive (Ref a) = False"
| "isPrimitive v = True"

definition safeKey :: "env \<Rightarrow> jsstring \<Rightarrow> jsstring" where
  "safeKey E key = (if is_identifier key then key else escapeUnsafeChars (JSON_stringify E key))"

definition safeProp :: "env \<Rightarrow> jsstring \<Rightarrow> jsstring" where
  "safeProp E key =
     (if is_identifier key then ascii ''.'' @ key
      else ascii ''['' @ escapeUnsafeChars (JSON_stringify E key) @ ascii '']'')"

text \<open>
  \<open>Object.keys\<close>: the own enumerable string keys, first those that are array indices
  (canonical decimal numerals below \<open>2^32 - 1\<close>) in ascending numeric order, then the
  others in creation order.
\<close>

definition numeral_value :: "jsstring \<Rightarrow> nat" where
  "numeral_value s = fold (\<lambda>c n. 10 * n + unat (c - 0x30)) s 0"

definition array_index :: "jsstring \<Rightarrow> nat option" where
  "array_index s =
     (if s \<noteq> [] \<and> list_all (\<lambda>c. 0x30 \<le> c \<and> c \<le> 0x39) s \<and> (length s = 1 \<or> hd s \<noteq> 0x30)
         \<and> numeral_value s < 4294967295
      then Some (numeral_value s) else None)"

definition Object_keys :: "keyed \<Rightarrow> jsstring list" where
  "Object_keys ob =
     (let ks = map fst (props ob)
      in sort_key (\<lambda>k. the (array_index k)) (filter (\<lambda>k. array_index k \<noteq> None) ks)
         @ filter (\<lambda>k. array_index k = None) ks)"

text \<open>\<open>thing[key]\<close> for an own key of a keyed object.\<close>

definition get_prop :: "keyed \<Rightarrow> jsstring \<Rightarrow> val" where
  "get_prop ob key = (case map_of (props ob) key of Some v \<Rightarrow> v | None \<Rightarrow> Undefined)"

text \<open>\<open>thing.toJSON\<close>: the own property when there is one, else the inherited one.\<close>

definition get_toJSON :: "keyed \<Rightarrow> val" where
  "get_toJSON ob =
     (case map_of (props ob) (ascii ''toJSON'') of Some v \<Rightarrow> v | None \<Rightarrow> inherited_toJSON ob)"

fun truthy :: "val \<Rightarrow> bool" where
  "truthy Undefined = False"
| "truthy Null = False"
| "truthy (Bool b) = b"
| "truthy (Num n) = (n \<noteq> Finite 0 \<and> n \<noteq> NegZero \<and> n \<noteq> NaN)"
| "truthy (Str s) = (s \<noteq> [])"
| "truthy (Ref a) = True"

text \<open>The function behind a value, if it is one: \<open>typeof v === 'function'\<close>.\<close>

definition as_function :: "heap \<Rightarrow> val \<Rightarrow> (jsstring \<times> outcome) option" where
  "as_function h v =
     (case v of
        Ref a \<Rightarrow> (case h a of KeyedObj ob \<Rightarrow> callable ob | _ \<Rightarrow> None)
      | _ \<Rightarrow> None)"

text \<open>\<open>f()\<close>: calling what is not a function is a TypeError.\<close>

definition call :: "heap \<Rightarrow> val \<Rightarrow> error + val" where
  "call h f =
     (case as_function h f of
        None \<Rightarrow> Inl TypeError
      | Some (name, Throws) \<Rightarrow> Inl Thrown
      | Some (name, Returns v) \<Rightarrow> Inr v)"

text \<open>
  \<open>getType(json) === 'String'\<close> holds for a string and for a String object; the result
  is the text that \<open>JSON.parse\<close> then reads.
\<close>

definition string_value :: "heap \<Rightarrow> val \<Rightarrow> jsstring option" where
  "string_value h v =
     (case v of
        Str s \<Rightarrow> Some s
      | Ref a \<Rightarrow> (case h a of BoxedObj (BoxedString s) \<Rightarrow> Some s | _ \<Rightarrow> None)
      | _ \<Rightarrow> None)"


section \<open>The traversal \<^verbatim>\<open>walk\<close>\<close>

text \<open>
  The variables of one call of \<^verbatim>\<open>devalue\<close> that \<^verbatim>\<open>walk\<close> reads and writes: the
  store (\<^verbatim>\<open>walk\<close> assigns to \<open>parent[key]\<close>), the two tables, \<^verbatim>\<open>logNum\<close>, and what
  was passed to \<open>consola[level]\<close>, in order. \<open>invoked\<close> is not a variable of the
  source: it records the objects whose \<open>toJSON\<close> method \<^verbatim>\<open>walk\<close> has called, in order.
\<close>

record wstate =
  heap :: heap
  counts :: "(val \<times> count) list"
  mapObjToJSON :: "(val \<times> val) list"
  logNum :: nat
  emitted :: "jsstring list"
  invoked :: "addr list"

text \<open>\<open>forEach\<close> with a callback that may throw: the first error ends the loop.\<close>

fun forEach :: "('a \<Rightarrow> 's \<Rightarrow> error + 's) \<Rightarrow> 'a list \<Rightarrow> 's \<Rightarrow> error + 's" where
  "forEach f [] st = Inr st"
| "forEach f (x # xs) st = (case f x st of Inl e \<Rightarrow> Inl e | Inr st' \<Rightarrow> forEach f xs st')"

text \<open>The function \<^verbatim>\<open>log\<close> of the source.\<close>

definition log :: "env \<Rightarrow> jsstring \<Rightarrow> wstate \<Rightarrow> wstate" where
  "log E message st =
     (if logNum st < logLimit E
      then st\<lparr>emitted := emitted st @ [message], logNum := logNum st + 1\<rparr>
      else st)"

text \<open>
  \<open>parent[key] = json\<close>. \<open>parent\<close> is the keyed object whose keys \<^verbatim>\<open>walk\<close> is
  enumerating and \<open>key\<close> one of its own keys; an undefined key names the property
  \<open>"undefined"\<close>.
\<close>

definition key_name :: "jsstring option \<Rightarrow> jsstring" where
  "key_name key = (case key of None \<Rightarrow> ascii ''undefined'' | Some k \<Rightarrow> k)"

definition assign_prop :: "heap \<Rightarrow> addr \<Rightarrow> jsstring \<Rightarrow> val \<Rightarrow> heap" where
  "assign_prop h p k v =
     (case h p of
        KeyedObj ob \<Rightarrow> h(p := KeyedObj (ob\<lparr>props := AList.update k v (props ob)\<rparr>))
      | _ \<Rightarrow> h)"

text \<open>\<open>parent[key]\<close>, read when the assignment is made.\<close>

definition read_prop :: "heap \<Rightarrow> addr \<Rightarrow> jsstring \<Rightarrow> val" where
  "read_prop h p k = (case h p of KeyedObj ob \<Rightarrow> get_prop ob k | _ \<Rightarrow> Undefined)"

text \<open>
  \<open>target[index] = json\<close> in strict code (the source is a module). On undefined, null
  or a primitive it throws a TypeError. An array gets the element, growing by holes when
  the index is past its end; a keyed object gets the property named by the index. The
  indexed units of a String object are read-only. A property added to any other object
  is not part of the model: neither \<^verbatim>\<open>walk\<close> nor \<^verbatim>\<open>stringify\<close> reads one.
\<close>

definition array_set :: "val option list \<Rightarrow> nat \<Rightarrow> val \<Rightarrow> val option list" where
  "array_set es i v =
     (if i < length es then es[i := Some v]
      else es @ replicate (i - length es) None @ [Some v])"

definition assign_index :: "heap \<Rightarrow> val \<Rightarrow> nat \<Rightarrow> val \<Rightarrow> error + heap" where
  "assign_index h target i v =
     (case target of
        Ref t \<Rightarrow>
          (case h t of
             ArrayObj es \<Rightarrow> Inr (h(t := ArrayObj (array_set es i v)))
           | KeyedObj ob \<Rightarrow>
               Inr (h(t := KeyedObj (ob\<lparr>props := AList.update (decimal i) v (props ob)\<rparr>)))
           | BoxedObj b \<Rightarrow>
               (case b of
                  BoxedString s \<Rightarrow> if i < length s then Inl TypeError else Inr h
                | _ \<Rightarrow> Inr h)
           | _ \<Rightarrow> Inr h)
      | _ \<Rightarrow> Inl TypeError)"

text \<open>
  Lines 104 to 107: the converted value replaces the original in its parent. With no
  parent (\<open>parent\<close> is undefined) both assignments throw a TypeError.
\<close>

definition splice_json :: "wstate \<Rightarrow> addr option \<Rightarrow> jsstring option \<Rightarrow> nat option \<Rightarrow> val \<Rightarrow> error + wstate" where
  "splice_json st parent key index json =
     (case parent of
        None \<Rightarrow> Inl TypeError
      | Some p \<Rightarrow>
          (case index of
             Some i \<Rightarrow>
               (case assign_index (heap st) (read_prop (heap st) p (key_name key)) i json of
                  Inl e \<Rightarrow> Inl e
                | Inr h' \<Rightarrow> Inr (st\<lparr>heap := h'\<rparr>))
           | None \<Rightarrow> Inr (st\<lparr>heap := assign_prop (heap st) p (key_name key) json\<rparr>)))"

text \<open>
  Lines 75 to 102: the count entered for \<open>thing\<close> is removed; a cached conversion is
  counted once more; otherwise \<open>toJSON\<close> is called, a result of type String is parsed
  (\<open>thing\<close> itself stands in when parsing fails), and the result is cached and entered
  with count 1. The result is the value \<open>json\<close> and the new state.
\<close>

definition convert :: "env \<Rightarrow> wstate \<Rightarrow> addr \<Rightarrow> keyed \<Rightarrow> error + (val \<times> wstate)" where
  "convert E st a ob =
     (let thing = Ref a;
          st1 = st\<lparr>counts := Map_delete (counts st) thing\<rparr>
      in case Map_get (mapObjToJSON st1) thing of
           Some json \<Rightarrow>
             Inr (json, st1\<lparr>counts := Map_set (counts st1) json (plus1 (Map_get (counts st1) json))\<rparr>)
         | None \<Rightarrow>
             (case call (heap st1) (get_toJSON ob) of
                Inl e \<Rightarrow> Inl e
              | Inr r \<Rightarrow>
                  let st2 = st1\<lparr>invoked := invoked st1 @ [a]\<rparr>;
                      (json, h') =
                        (case string_value (heap st2) r of
                           None \<Rightarrow> (r, heap st2)
                         | Some text \<Rightarrow>
                             (case JSON_parse E text (heap st2) of
                                Some parsed \<Rightarrow> parsed
                              | None \<Rightarrow> (thing, heap st2)))
                  in Inr (json,
                          st2\<lparr>heap := h',
                              mapObjToJSON := Map_set (mapObjToJSON st2) thing json,
                              counts := Map_set (counts st2) json (Count 1)\<rparr>)))"

text \<open>An element of an array, read when \<open>forEach\<close> reaches its index; \<open>None\<close> at a hole.\<close>

definition array_item :: "heap \<Rightarrow> addr \<Rightarrow> nat \<Rightarrow> val option" where
  "array_item h a i =
     (case h a of ArrayObj es \<Rightarrow> (if i < length es then es ! i else None) | _ \<Rightarrow> None)"

text \<open>
  \<^verbatim>\<open>walk(thing, parent, key, index)\<close>. The first argument is the number of nested calls
  of \<^verbatim>\<open>walk\<close> that the call stack still holds; when it is used up the engine throws a
  RangeError. An undefined \<open>parent\<close>, \<open>key\<close> or \<open>index\<close> is \<open>None\<close>.

  \<open>Array.prototype.forEach\<close> fixes the length when it starts and reads each element when
  it reaches it, skipping holes; \<open>Array.from\<close> of a Set or Map and \<open>Object.keys\<close> are
  taken before the loop, and \<open>thing[key]\<close> is read inside it. An entry of a Map is walked
  as the fresh array \<open>[k, v]\<close> that \<open>Array.from\<close> builds: nothing else refers to that
  array, so its count stays 1 and the model does not enter it in \<open>counts\<close>.
\<close>

fun walk :: "nat \<Rightarrow> env \<Rightarrow> wstate \<Rightarrow> val \<Rightarrow> addr option \<Rightarrow> jsstring option \<Rightarrow> nat option
    \<Rightarrow> error + wstate" where
  "walk 0 E st thing parent key index = Inl RangeError"
| "walk (Suc d) E st thing parent key index =
     (case as_function (heap st) thing of
        Some (name, body) \<Rightarrow>
          Inr (st\<lparr>emitted := emitted st @ [ascii ''Cannot stringify a function '' @ name]\<rparr>)
      | None \<Rightarrow>
          (case Map_get (counts st) thing of
             Some c \<Rightarrow> Inr (st\<lparr>counts := Map_set (counts st) thing (plus1 (Some c))\<rparr>)
           | None \<Rightarrow>
               (let st1 = st\<lparr>counts := Map_set (counts st) thing (Count 1)\<rparr>
                in case thing of
                     Ref a \<Rightarrow>
                       (case heap st1 a of
                          BoxedObj b \<Rightarrow> Inr st1
                        | DateObj t \<Rightarrow> Inr st1
                        | RegExpObj r \<Rightarrow> Inr st1
                        | ArrayObj es \<Rightarrow>
                            forEach
                              (\<lambda>i s. case array_item (heap s) a i of
                                       None \<Rightarrow> Inr s
                                     | Some item \<Rightarrow> walk d E s item parent key (Some i))
                              [0..<length es] st1
                        | SetObj members \<Rightarrow>
                            forEach (\<lambda>item s. walk d E s item parent key None) members st1
                        | MapObj entries \<Rightarrow>
                            forEach
                              (\<lambda>(k, v) s.
                                 case d of
                                   0 \<Rightarrow> Inl RangeError
                                 | Suc d' \<Rightarrow>
                                     (case walk d' E s k parent key (Some 0) of
                                        Inl e \<Rightarrow> Inl e
                                      | Inr s' \<Rightarrow> walk d' E s' v parent key (Some 1)))
                              entries st1
                        | KeyedObj ob \<Rightarrow>
                            if truthy (get_toJSON ob) then
                              (case convert E st1 a ob of
                                 Inl e \<Rightarrow> Inl e
                               | Inr (json, st2) \<Rightarrow> splice_json st2 parent key index json)
                            else if (case proto ob of
                                       OtherPrototype names ctor \<Rightarrow>
                                         names \<noteq> objectProtoOwnPropertyNames E
                                     | _ \<Rightarrow> False)
                            then
                              (if as_function (heap st1) (get_toJSON ob) = None then
                                 (case proto ob of
                                    OtherPrototype names (Some ctor) \<Rightarrow>
                                      Inr (log E (ascii ''Cannot stringify arbitrary non-POJOs '' @ ctor) st1)
                                  | _ \<Rightarrow> Inl TypeError)
                               else Inr st1)
                            else if symbols ob \<noteq> [] then
                              Inr (log E (ascii ''Cannot stringify POJOs with symbolic keys ''
                                            @ join (ascii '','') (symbols ob)) st1)
                            else
                              forEach
                                (\<lambda>k s. walk d E s (read_prop (heap s) a k) (Some a) (Some k) None)
                                (Object_keys ob) st1)
                   | _ \<Rightarrow> Inr st1)))"


section \<open>Names\<close>

text \<open>
  Lines 133 to 139: the entries of \<^verbatim>\<open>counts\<close> with a count above 1, sorted by
  descending count (\<open>Array.prototype.sort\<close> is stable), are named in that order.
  \<open>NaN > 1\<close> is false.
\<close>

fun repeats :: "val \<times> count \<Rightarrow> bool" where
  "repeats (k, Count n) = (1 < n)"
| "repeats (k, NaN_count) = False"

fun count_value :: "count \<Rightarrow> int" where
  "count_value (Count n) = int n"
| "count_value NaN_count = 0"

definition make_names :: "(val \<times> count) list \<Rightarrow> (val \<times> jsstring) list" where
  "make_names cs =
     (let entries = sort_key (\<lambda>entry. - count_value (snd entry)) (filter repeats cs)
      in fold (\<lambda>(entry, i) names. Map_set names (fst entry) (getName i))
           (zip entries [0..<length entries]) [])"

section \<open>The emitter \<^verbatim>\<open>stringify\<close>\<close>

text \<open>\<open>map\<close> with a callback that may throw: the first error, in order, is the result.\<close>

fun collect :: "(error + 'a) list \<Rightarrow> error + 'a list" where
  "collect [] = Inr []"
| "collect (x # xs) =
     (case x of
        Inl e \<Rightarrow> Inl e
      | Inr v \<Rightarrow> (case collect xs of Inl e \<Rightarrow> Inl e | Inr vs \<Rightarrow> Inr (v # vs)))"

fun unbox :: "boxed \<Rightarrow> val" where
  "unbox (BoxedNumber n) = Num n"
| "unbox (BoxedString s) = Str s"
| "unbox (BoxedBoolean b) = Bool b"

text \<open>
  \<open>thing.length === 0 || (thing.length - 1 in thing) ? '' : ','\<close>
\<close>

definition tail :: "val option list \<Rightarrow> jsstring" where
  "tail es = (if length es = 0 \<or> last es \<noteq> None then [] else ascii '','')"

text \<open>
  \<^verbatim>\<open>stringify(thing)\<close>, with the table \<^verbatim>\<open>names\<close> and the store as arguments. The first
  argument bounds the nesting of calls as for \<^verbatim>\<open>walk\<close>. An entry of a Map is rendered
  as the fresh array \<open>[k, v]\<close>, which has no name. \<open>JSON.parse\<close> only builds new
  objects, so the store it returns is used for its result and the one before for the
  rest. \<open>catch (e) {}\<close> leaves \<open>json\<close> as it was.

  The result is the text. Beside it stands what is not a value of the source: the objects
  whose \<open>toJSON\<close> method the call has invoked (line 175), in order, as \<open>invoked\<close>
  records them for \<^verbatim>\<open>walk\<close>.
\<close>

fun stringify :: "nat \<Rightarrow> env \<Rightarrow> (val \<times> jsstring) list \<Rightarrow> heap \<Rightarrow> val
    \<Rightarrow> error + (jsstring \<times> addr list)" where
  "stringify 0 E names h thing = Inl RangeError"
| "stringify (Suc d) E names h thing =
     (case Map_get names thing of
        Some name \<Rightarrow> Inr (name, [])
      | None \<Rightarrow>
          (case thing of
             Ref a \<Rightarrow>
               (case h a of
                  BoxedObj b \<Rightarrow>
                    (case stringify d E names h (unbox b) of
                       Inl e \<Rightarrow> Inl e
                     | Inr (s, l) \<Rightarrow> Inr (ascii ''Object('' @ s @ ascii '')'', l))
                | RegExpObj r \<Rightarrow> Inr (r, [])
                | DateObj t \<Rightarrow> Inr (ascii ''new Date('' @ String_number t @ ascii '')'', [])
                | ArrayObj es \<Rightarrow>
                    (case collect (map (\<lambda>slot. case slot of
                                                  None \<Rightarrow> Inr ([], [])
                                                | Some v \<Rightarrow> stringify d E names h v) es) of
                       Inl e \<Rightarrow> Inl e
                     | Inr members \<Rightarrow>
                         Inr (ascii ''['' @ join (ascii '','') (map fst members) @ tail es @ ascii '']'',
                              concat (map snd members)))
                | SetObj members \<Rightarrow>
                    (case collect (map (stringify d E names h) members) of
                       Inl e \<Rightarrow> Inl e
                     | Inr ms \<Rightarrow>
                         Inr (ascii ''new Set(['' @ join (ascii '','') (map fst ms) @ ascii ''])'',
                              concat (map snd ms)))
                | MapObj entries \<Rightarrow>
                    (case collect
                            (map (\<lambda>(k, v).
                                    case d of
                                      0 \<Rightarrow> Inl RangeError
                                    | Suc d' \<Rightarrow>
                                        (case collect [stringify d' E names h k,
                                                       stringify d' E names h v] of
                                           Inl e \<Rightarrow> Inl e
                                         | Inr kv \<Rightarrow>
                                             Inr (ascii ''['' @ join (ascii '','') (map fst kv) @ ascii '']'',
                                                  concat (map snd kv))))
                               entries) of
                       Inl e \<Rightarrow> Inl e
                     | Inr ms \<Rightarrow>
                         Inr (ascii ''new Map(['' @ join (ascii '','') (map fst ms) @ ascii ''])'',
                              concat (map snd ms)))
                | KeyedObj ob \<Rightarrow>
                    if truthy (get_toJSON ob) then
                      (case call h (get_toJSON ob) of
                         Inl e \<Rightarrow> Inl e
                       | Inr json \<Rightarrow>
                           (case (case string_value h json of
                                    None \<Rightarrow> stringify d E names h json
                                  | Some text \<Rightarrow>
                                      (case JSON_parse E text h of
                                         Some (parsed, h') \<Rightarrow> stringify d E names h' parsed
                                       | None \<Rightarrow> stringify d E names h json)) of
                              Inl e \<Rightarrow> Inl e
                            | Inr (s, l) \<Rightarrow> Inr (s, a # l)))
                    else if proto ob = NullPrototype then
                      (if Object_keys ob = [] then Inr (ascii ''Object.create(null)'', [])
                       else
                         (case collect
                                 (map (\<lambda>key.
                                         case stringify d E names h (get_prop ob key) of
                                           Inl e \<Rightarrow> Inl e
                                         | Inr (s, l) \<Rightarrow>
                                             Inr (safeKey E key
                                                  @ ascii '':{writable:true,enumerable:true,value:''
                                                  @ s @ ascii ''}'', l))
                                    (Object_keys ob)) of
                            Inl e \<Rightarrow> Inl e
                          | Inr ps \<Rightarrow>
                              Inr (ascii ''Object.create(null,{'' @ join (ascii '','') (map fst ps)
                                   @ ascii ''})'', concat (map snd ps))))
                    else
                      (case collect
                              (map (\<lambda>key.
                                      case stringify d E names h (get_prop ob key) of
                                        Inl e \<Rightarrow> Inl e
                                      | Inr (s, l) \<Rightarrow> Inr (safeKey E key @ ascii '':'' @ s, l))
                                 (Object_keys ob)) of
                         Inl e \<Rightarrow> Inl e
                       | Inr ps \<Rightarrow>
                           Inr (ascii ''{'' @ join (ascii '','') (map fst ps) @ ascii ''}'',
                                concat (map snd ps))))
           | _ \<Rightarrow> Inr (stringifyPrimitive thing, [])))"

section \<open>The wrapper and \<^verbatim>\<open>devalue\<close>\<close>

text \<open>
  One round of \<open>names.forEach\<close> (lines 203 to 251) for the entry \<open>(thing, name)\<close>: the
  text pushed to \<^verbatim>\<open>values\<close>, the texts pushed to \<^verbatim>\<open>statements\<close>, and the objects
  whose \<open>toJSON\<close> method the calls of \<^verbatim>\<open>stringify\<close> have invoked. \<open>forEach\<close> on an
  array skips its holes.
\<close>

definition present :: "val option list \<Rightarrow> (nat \<times> val) list" where
  "present es = concat (map (\<lambda>(i, slot). case slot of None \<Rightarrow> [] | Some v \<Rightarrow> [(i, v)])
                          (zip [0..<length es] es))"

definition binding :: "nat \<Rightarrow> env \<Rightarrow> (val \<times> jsstring) list \<Rightarrow> heap \<Rightarrow> val \<times> jsstring
    \<Rightarrow> error + (jsstring \<times> jsstring list \<times> addr list)" where
  "binding d E names h entry =
     (let thing = fst entry; name = snd entry
      in case thing of
           Ref a \<Rightarrow>
             (case h a of
                BoxedObj b \<Rightarrow>
                  (case stringify d E names h (unbox b) of
                     Inl e \<Rightarrow> Inl e
                   | Inr (s, l) \<Rightarrow> Inr (ascii ''Object('' @ s @ ascii '')'', [], l))
              | RegExpObj r \<Rightarrow> Inr (r, [], [])
              | DateObj t \<Rightarrow> Inr (ascii ''new Date('' @ String_number t @ ascii '')'', [], [])
              | ArrayObj es \<Rightarrow>
                  (case collect (map (\<lambda>(i, v).
                                        case stringify d E names h v of
                                          Inl e \<Rightarrow> Inl e
                                        | Inr (s, l) \<Rightarrow>
                                            Inr (name @ ascii ''['' @ decimal i @ ascii '']='' @ s, l))
                                   (present es)) of
                     Inl e \<Rightarrow> Inl e
                   | Inr stmts \<Rightarrow>
                       Inr (ascii ''Array('' @ decimal (length es) @ ascii '')'', map fst stmts,
                            concat (map snd stmts)))
              | SetObj members \<Rightarrow>
                  (case collect (map (\<lambda>v. case stringify d E names h v of
                                             Inl e \<Rightarrow> Inl e
                                           | Inr (s, l) \<Rightarrow> Inr (ascii ''add('' @ s @ ascii '')'', l))
                                   members) of
                     Inl e \<Rightarrow> Inl e
                   | Inr adds \<Rightarrow>
                       Inr (ascii ''new Set'',
                            [name @ ascii ''.'' @ join (ascii ''.'') (map fst adds)],
                            concat (map snd adds)))
              | MapObj entries \<Rightarrow>
                  (case collect (map (\<lambda>(k, v).
                                        case collect [stringify d E names h k,
                                                      stringify d E names h v] of
                                          Inl e \<Rightarrow> Inl e
                                        | Inr kv \<Rightarrow>
                                            Inr (ascii ''set('' @ join (ascii '', '') (map fst kv)
                                                 @ ascii '')'', concat (map snd kv)))
                                   entries) of
                     Inl e \<Rightarrow> Inl e
                   | Inr sets \<Rightarrow>
                       Inr (ascii ''new Map'',
                            [name @ ascii ''.'' @ join (ascii ''.'') (map fst sets)],
                            concat (map snd sets)))
              | KeyedObj ob \<Rightarrow>
                  (case collect (map (\<lambda>key.
                                        case stringify d E names h (get_prop ob key) of
                                          Inl e \<Rightarrow> Inl e
                                        | Inr (s, l) \<Rightarrow>
                                            Inr (name @ safeProp E key @ ascii ''='' @ s, l))
                                   (Object_keys ob)) of
                     Inl e \<Rightarrow> Inl e
                   | Inr stmts \<Rightarrow>
                       Inr (if proto ob = NullPrototype then ascii ''Object.create(null)''
                            else ascii ''{}'', map fst stmts, concat (map snd stmts))))
         | _ \<Rightarrow> Inr (stringifyPrimitive thing, [], []))"

text \<open>The variables of a call of \<^verbatim>\<open>devalue\<close> before \<^verbatim>\<open>walk\<close> runs.\<close>

definition initial :: "heap \<Rightarrow> wstate" where
  "initial h =
     \<lparr>heap = h, counts = [], mapObjToJSON = [], logNum = 0, emitted = [], invoked = []\<rparr>"

text \<open>
  \<^verbatim>\<open>devalue(value, level)\<close>, with the store that holds \<open>value\<close> and the depth of call
  stack left; \<open>level\<close> names a method of the reporter and is not modelled. The result is
  the returned text with the final state of the traversal (the store after the call and
  the diagnostics), or the error thrown. In that state \<open>invoked\<close> holds every call of a
  \<open>toJSON\<close> method in the order of the source: those of \<^verbatim>\<open>walk\<close>, those of
  \<open>stringify(value)\<close> (line 196), then those of the rounds of \<open>names.forEach\<close>.
\<close>

definition devalue :: "nat \<Rightarrow> env \<Rightarrow> heap \<Rightarrow> val \<Rightarrow> error + (jsstring \<times> wstate)" where
  "devalue d E h v =
     (case walk d E (initial h) v None None None of
        Inl e \<Rightarrow> Inl e
      | Inr st \<Rightarrow>
          (let names = make_names (counts st)
           in case stringify d E names (heap st) v of
                Inl e \<Rightarrow> Inl e
              | Inr (str, l) \<Rightarrow>
                  if names \<noteq> [] then
                    (case collect (map (binding d E names (heap st)) names) of
                       Inl e \<Rightarrow> Inl e
                     | Inr bs \<Rightarrow>
                         Inr (ascii ''(function('' @ join (ascii '','') (map snd names) @ ascii ''){''
                              @ join (ascii '';'')
                                  (concat (map (\<lambda>b. fst (snd b)) bs) @ [ascii ''return '' @ str])
                              @ ascii ''}('' @ join (ascii '','') (map fst bs) @ ascii ''))'',
                              st\<lparr>invoked := invoked st @ l @ concat (map (\<lambda>b. snd (snd b)) bs)\<rparr>))
                  else Inr (str, st\<lparr>invoked := invoked st @ l\<rparr>)))"


section \<open>The value graph and the conversion log\<close>

text \<open>
  The values an object refers to, and the objects that a value reaches through them: the
  value graph of an input.
\<close>

fun children :: "obj \<Rightarrow> val list" where
  "children (ArrayObj es) = concat (map (\<lambda>slot. case slot of None \<Rightarrow> [] | Some v \<Rightarrow> [v]) es)"
| "children (SetObj members) = members"
| "children (MapObj entries) = concat (map (\<lambda>(k, v). [k, v]) entries)"
| "children (KeyedObj ob) = map snd (props ob)"
| "children other = []"

inductive reaches :: "heap \<Rightarrow> val \<Rightarrow> addr \<Rightarrow> bool" for h :: heap where
  here: "reaches h (Ref a) a"
| step: "v \<in> set (children (h a)) \<Longrightarrow> reaches h v b \<Longrightarrow> reaches h (Ref a) b"

text \<open>No object of the graph of \<open>v\<close> has a \<open>toJSON\<close> member (\<open>thing.toJSON\<close> is falsy).\<close>

definition no_toJSON :: "heap \<Rightarrow> val \<Rightarrow> bool" where
  "no_toJSON h v \<longleftrightarrow>
     (\<forall>a ob. reaches h v a \<and> h a = KeyedObj ob \<longrightarrow> \<not> truthy (get_toJSON ob))"

text \<open>No object of the graph of \<open>v\<close> is a function.\<close>

definition no_callable :: "heap \<Rightarrow> val \<Rightarrow> bool" where
  "no_callable h v \<longleftrightarrow> (\<forall>a ob. reaches h v a \<and> h a = KeyedObj ob \<longrightarrow> callable ob = None)"

text \<open>
  No object was converted twice, and every converted object has its entry in
  \<^verbatim>\<open>mapObjToJSON\<close>.
\<close>

definition once :: "wstate \<Rightarrow> bool" where
  "once s \<longleftrightarrow>
     distinct (invoked s) \<and> (\<forall>a \<in> set (invoked s). Map_get (mapObjToJSON s) (Ref a) \<noteq> None)"

section \<open>Inputs for the examples\<close>

text \<open>A record literal \<open>{k: v, ...}\<close>, and a store whose addresses all hold \<open>{}\<close>.\<close>

definition plain :: "(jsstring \<times> val) list \<Rightarrow> obj" where
  "plain ps =
     KeyedObj \<lparr>callable = None, proto = ObjectPrototype, symbols = [],
               inherited_toJSON = Undefined, props = ps\<rparr>"

definition blank :: heap where
  "blank = (\<lambda>a. plain [])"

text \<open>
  A function \<open>function name() { return v }\<close> without enumerable properties of its
  own. Its prototype is \<open>Function.prototype\<close>, with the nine own property names of a
  current engine.
\<close>

definition function_prototype :: proto where
  "function_prototype =
     OtherPrototype
       (join [0] (map ascii [''apply'', ''arguments'', ''bind'', ''call'', ''caller'',
                             ''constructor'', ''length'', ''name'', ''toString'']))
       (Some (ascii ''Function''))"

definition returning :: "string \<Rightarrow> val \<Rightarrow> obj" where
  "returning name v =
     KeyedObj \<lparr>callable = Some (ascii name, Returns v), proto = function_prototype,
               symbols = [], inherited_toJSON = Undefined, props = []\<rparr>"

text \<open>
  An instance, without properties of its own, of a class whose method \<open>toJSON\<close> is the
  function \<open>f\<close>.
\<close>

definition converting :: "val \<Rightarrow> obj" where
  "converting f =
     KeyedObj \<lparr>callable = None, proto = ObjectPrototype, symbols = [],
               inherited_toJSON = f, props = []\<rparr>"

text \<open>
  The store of \<open>{x: t, y: t}\<close>, where \<open>t.toJSON()\<close> returns an empty array: the root
  at 0, \<open>t\<close> at 1, the method at 2, the array at 3.
\<close>

definition shared_conversion :: heap where
  "shared_conversion =
     (\<lambda>a. plain [])
       (0 := plain [(ascii ''x'', Ref 1), (ascii ''y'', Ref 1)],
        1 := converting (Ref 2),
        2 := KeyedObj \<lparr>callable = Some (ascii ''toJSON'', Returns (Ref 3)),
                       proto = function_prototype, symbols = [],
                       inherited_toJSON = Undefined, props = []\<rparr>,
        3 := ArrayObj [])"

text \<open>An instance of \<open>class Point { }\<close> with the given properties.\<close>

definition point :: "(jsstring \<times> val) list \<Rightarrow> obj" where
  "point ps =
     KeyedObj \<lparr>callable = None,
               proto = OtherPrototype (ascii ''constructor'') (Some (ascii ''Point'')),
               symbols = [], inherited_toJSON = Undefined, props = ps\<rparr>"

text \<open>
  The default environment: \<^verbatim>\<open>logLimit\<close> is 99 and \<^verbatim>\<open>objectProtoOwnPropertyNames\<close> is
  the twelve names of a current engine. None of the examples reaches \<open>JSON.parse\<close> or
  \<open>JSON.stringify\<close>; the stand-ins here reject every text and quote a key as it is.
\<close>

definition default_env :: env where
  "default_env =
     \<lparr>logLimit = 99,
      objectProtoOwnPropertyNames =
        join [0] (map ascii
          [''__defineGetter__'', ''__defineSetter__'', ''__lookupGetter__'', ''__lookupSetter__'',
           ''__proto__'', ''constructor'', ''hasOwnProperty'', ''isPrototypeOf'',
           ''propertyIsEnumerable'', ''toLocaleString'', ''toString'', ''valueOf'']),
      JSON_parse = (\<lambda>text h. None),
      JSON_stringify = (\<lambda>key. quote # key @ [quote])\<rparr>"

text \<open>What a call returns to its caller: the text, or the error thrown.\<close>

definition returned :: "error + (jsstring \<times> wstate) \<Rightarrow> error + jsstring" where
  "returned r = map_sum id fst r"

section \<open>Evaluation\<close>

declare decimal.simps [simp del] toString16.simps [simp del] getName_loop.simps [simp del]

lemmas text_defs =
  ascii_def quote_def backslash_def chars_def reserved_def escaped_def unsafeChars_def
  ident_start_def ident_part_def digit_def hexdigit_def strip_leading_zero_def

lemmas table_defs = Map_get_def Map_set_def Map_delete_def key_of_def

lemmas keys_defs =
  Object_keys_def array_index_def numeral_value_def get_prop_def get_toJSON_def read_prop_def
  safeKey_def safeProp_def key_name_def

lemmas run_defs =
  devalue_def initial_def as_function_def make_names_def getName_def binding_def present_def
  tail_def array_item_def returned_def plain_def returning_def function_prototype_def point_def
  converting_def shared_conversion_def
  call_def string_value_def
  convert_def splice_json_def assign_prop_def assign_index_def array_set_def log_def

lemmas eval_simps = run_defs table_defs keys_defs text_defs decimal.simps getName_loop.simps upt_rec


section \<open>Scenarios\<close>

lemma scenario_text:
  "returned (devalue (Suc (Suc (Suc d))) E
     (h(0 := plain [(ascii ''a'', Num (Finite 1)), (ascii ''b'', Ref 1)],
        1 := ArrayObj [Some (Num (Finite 1)), Some (Num (Finite 2)), Some (Num (Finite 3))]))
     (Ref 0))
   = Inr (ascii ''(function(a){return {a:a,b:[a,2,3]}}(1))'')"
  by (simp add: eval_simps)

text \<open>
  C3, as stated: \<open>serialize({a: 1, b: [1,2,3]})\<close> returns exactly \<open>{a:1,b:[1,2,3]}\<close>,
  with no wrapper. It does not: \<^verbatim>\<open>walk\<close> counts primitives as it counts objects, and
  the number 1 is met twice (as \<open>a\<close> and as \<open>b[0]\<close>), so it is named.
\<close>

theorem scenario_is_not_bare:
  "returned (devalue 100 default_env
     (blank(0 := plain [(ascii ''a'', Num (Finite 1)), (ascii ''b'', Ref 1)],
            1 := ArrayObj [Some (Num (Finite 1)), Some (Num (Finite 2)), Some (Num (Finite 3))]))
     (Ref 0))
   \<noteq> Inr (ascii ''{a:1,b:[1,2,3]}'')"
  using scenario_text [of 97 default_env blank] by (simp add: ascii_def)

text \<open>
  C3, amended: \<open>serialize({a: 1, b: [1,2,3]})\<close> returns exactly
  \<open>(function(a){return {a:a,b:[a,2,3]}}(1))\<close>: the number 1 occurs twice in the input,
  so it is bound to the name \<open>a\<close> in a self-invoking wrapper. This holds in every
  environment, wherever the two objects live in the store, and for every call stack
  that holds three nested calls.
\<close>

theorem scenario_is_wrapped:
  "returned (devalue (Suc (Suc (Suc d))) E
     (h(0 := plain [(ascii ''a'', Num (Finite 1)), (ascii ''b'', Ref 1)],
        1 := ArrayObj [Some (Num (Finite 1)), Some (Num (Finite 2)), Some (Num (Finite 3))]))
     (Ref 0))
   = Inr (ascii ''(function(a){return {a:a,b:[a,2,3]}}(1))'')"
  by (rule scenario_text)

lemma empty_set_twice:
  "returned (devalue (Suc (Suc d)) E
     (h(0 := ArrayObj [Some (Ref 1), Some (Ref 1)], 1 := SetObj [])) (Ref 0))
   = Inr (ascii ''(function(a){a.;return [a,a]}(new Set))'')"
  by (simp add: eval_simps)

lemma zero_twice:
  "z = NegZero \<or> z = Finite 0 \<Longrightarrow>
   returned (devalue (Suc (Suc d)) E (h(0 := ArrayObj [Some (Num z), Some (Num z)])) (Ref 0))
   = Inr (ascii ''(function(a){return [a,a]}(0))'')"
  by (auto simp add: eval_simps)

text \<open>
  C1, round trip, at two inputs without callables or foreign types. For \<open>[s, s]\<close> with
  \<open>s = new Set()\<close> the returned text holds the statement \<open>a.\<close>, which no engine
  accepts. For \<open>[-0, -0]\<close> the returned text is the one returned for \<open>[0, 0]\<close>, whose
  argument \<open>0\<close> is positive zero: the table \<^verbatim>\<open>counts\<close> is a Map, and a Map keeps the
  key \<open>-0\<close> as \<open>+0\<close>.
\<close>

theorem round_trip_fails:
  "returned (devalue 100 default_env
     (blank(0 := ArrayObj [Some (Ref 1), Some (Ref 1)], 1 := SetObj [])) (Ref 0))
   = Inr (ascii ''(function(a){a.;return [a,a]}(new Set))'')
   \<and> returned (devalue 100 default_env
         (blank(0 := ArrayObj [Some (Num NegZero), Some (Num NegZero)])) (Ref 0))
     = Inr (ascii ''(function(a){return [a,a]}(0))'')
   \<and> returned (devalue 100 default_env
         (blank(0 := ArrayObj [Some (Num (Finite 0)), Some (Num (Finite 0))])) (Ref 0))
     = Inr (ascii ''(function(a){return [a,a]}(0))'')"
  using empty_set_twice [of 98 default_env blank]
    zero_twice [of NegZero 98 default_env blank]
    zero_twice [of "Finite 0" 98 default_env blank]
  by simp

lemma root_toJSON:
  "devalue (Suc d) E
     (h(0 := KeyedObj \<lparr>callable = None, proto = ObjectPrototype, symbols = [],
                       inherited_toJSON = Ref 1, props = []\<rparr>,
        1 := returning ''toJSON'' (Num (Finite 1))))
     (Ref 0)
   = Inl TypeError"
  by (simp add: eval_simps)

text \<open>
  C2, never raises, at a root with a conversion method: for the instance \<open>r\<close> of a class
  with \<open>toJSON() { return 1 }\<close>, \<open>devalue(r)\<close> throws a TypeError. \<^verbatim>\<open>walk\<close> is
  called with \<open>parent\<close> undefined and assigns to \<open>parent[key]\<close>.
\<close>

theorem root_with_toJSON_throws:
  "devalue 100 default_env
     (blank(0 := KeyedObj \<lparr>callable = None, proto = ObjectPrototype, symbols = [],
                           inherited_toJSON = Ref 1, props = []\<rparr>,
            1 := returning ''toJSON'' (Num (Finite 1))))
     (Ref 0)
   = Inl TypeError"
  using root_toJSON [of 99 default_env blank] by simp

text \<open>
  Further scenarios: negative zero, \<open>undefined\<close> and zero at the root; a record
  that two keys share; arrays with a hole inside and at the end.
\<close>

lemma edge_cases:
  "returned (devalue (Suc d) E h (Num NegZero)) = Inr (ascii ''-0'')
   \<and> returned (devalue (Suc d) E h Undefined) = Inr (ascii ''void 0'')
   \<and> returned (devalue (Suc d) E h (Num (Finite 0))) = Inr (ascii ''0'')"
  by (simp add: eval_simps)

lemma shared_record:
  "returned (devalue (Suc (Suc (Suc d))) E
     (h(0 := plain [(ascii ''p'', Ref 1), (ascii ''q'', Ref 1)],
        1 := plain [(ascii ''x'', Num (Finite 1))])) (Ref 0))
   = Inr (ascii ''(function(a){a.x=1;return {p:a,q:a}}({}))'')"
  by (simp add: eval_simps)

lemma sparse:
  "returned (devalue (Suc (Suc d)) E
     (h(0 := ArrayObj [Some (Num (Finite 1)), None, Some (Num (Finite 3))])) (Ref 0))
   = Inr (ascii ''[1,,3]'')
   \<and> returned (devalue (Suc (Suc d)) E
     (h(0 := ArrayObj [Some (Num (Finite 1)), None])) (Ref 0))
   = Inr (ascii ''[1,,]'')"
  by (simp add: eval_simps)

section \<open>Callable values\<close>

lemma falsy_not_function: "\<not> truthy v \<Longrightarrow> as_function h v = None"
  by (cases v) (simp_all add: as_function_def)

lemma collect_replicate: "collect (replicate n (Inr x)) = Inr (replicate n x)"
  by (induction n) auto

lemma collect_length: "collect xs = Inr ys \<Longrightarrow> length ys = length xs"
  by (induction xs arbitrary: ys) (auto split: sum.splits)

lemma collect_map_case:
  "collect (map (\<lambda>x. case f x of Inl e \<Rightarrow> Inl e | Inr (s, l) \<Rightarrow> Inr (g x s, l)) xs) =
     (case collect (map f xs) of
        Inl e \<Rightarrow> Inl e
      | Inr rs \<Rightarrow> Inr (map (\<lambda>(x, r). (g x (fst r), snd r)) (zip xs rs)))"
  by (induction xs) (auto split: sum.splits)

lemma zip_texts:
  assumes "length xs = length rs"
  shows "map (fst \<circ> (\<lambda>(x, r). (g x (fst r), snd r))) (zip xs rs) = map (\<lambda>(x, r). g x (fst r)) (zip xs rs)"
    and "concat (map (snd \<circ> (\<lambda>(x, r). (g x (fst r), snd r))) (zip xs rs)) = concat (map snd rs)"
  using assms by (induction xs rs rule: list_induct2) auto

lemma stringify_record:
  assumes "h a = KeyedObj ob" and "\<not> truthy (get_toJSON ob)" and "proto ob \<noteq> NullPrototype"
    and "Map_get nm (Ref a) = None"
  shows "stringify (Suc d) E nm h (Ref a) =
     (case collect (map (\<lambda>k. stringify d E nm h (get_prop ob k)) (Object_keys ob)) of
        Inl e \<Rightarrow> Inl e
      | Inr rs \<Rightarrow>
          Inr (ascii ''{''
               @ join (ascii '','')
                   (map (\<lambda>(k, r). safeKey E k @ ascii '':'' @ fst r) (zip (Object_keys ob) rs))
               @ ascii ''}'',
               concat (map snd rs)))"
proof (cases "collect (map (\<lambda>k. stringify d E nm h (get_prop ob k)) (Object_keys ob))")
  case (Inl e)
  with assms show ?thesis
    by (simp add: collect_map_case [where g = "\<lambda>k s. safeKey E k @ ascii '':'' @ s"])
next
  case (Inr rs)
  from collect_length [OF Inr] have "length (Object_keys ob) = length rs" by simp
  with assms Inr show ?thesis
    by (simp add: collect_map_case [where g = "\<lambda>k s. safeKey E k @ ascii '':'' @ s"]
        zip_texts [where g = "\<lambda>k s. safeKey E k @ ascii '':'' @ s"])
qed

lemma binding_record:
  assumes "h a = KeyedObj ob"
  shows "binding d E nm h (Ref a, n) =
     (case collect (map (\<lambda>k. stringify d E nm h (get_prop ob k)) (Object_keys ob)) of
        Inl e \<Rightarrow> Inl e
      | Inr rs \<Rightarrow>
          Inr (if proto ob = NullPrototype then ascii ''Object.create(null)'' else ascii ''{}'',
               map (\<lambda>(k, r). n @ safeProp E k @ ascii ''='' @ fst r) (zip (Object_keys ob) rs),
               concat (map snd rs)))"
proof (cases "collect (map (\<lambda>k. stringify d E nm h (get_prop ob k)) (Object_keys ob))")
  case (Inl e)
  with assms show ?thesis
    by (simp add: binding_def collect_map_case [where g = "\<lambda>k s. n @ safeProp E k @ ascii ''='' @ s"])
next
  case (Inr rs)
  from collect_length [OF Inr] have "length (Object_keys ob) = length rs" by simp
  with assms Inr show ?thesis
    by (simp add: binding_def collect_map_case [where g = "\<lambda>k s. n @ safeProp E k @ ascii ''='' @ s"]
        zip_texts [where g = "\<lambda>k s. n @ safeProp E k @ ascii ''='' @ s"])
qed






lemma forEach_functions:
  assumes "heap st a = ArrayObj (replicate n (Some (Ref f)))"
    and "as_function (heap st) (Ref f) = Some (name, body)"
  shows "forEach (\<lambda>i s. case array_item (heap s) a i of
                          None \<Rightarrow> Inr s
                        | Some item \<Rightarrow> walk (Suc d) E s item parent key (Some i))
           [n - m..<n] st
         = Inr (st\<lparr>emitted := emitted st
                   @ replicate (min m n) (ascii ''Cannot stringify a function '' @ name)\<rparr>)"
  using assms
proof (induction m arbitrary: st)
  case 0
  then show ?case by simp
next
  case (Suc m)
  show ?case
  proof (cases "m < n")
    case False
    then have "n - Suc m = n - m" "min (Suc m) n = min m n" by auto
    with Suc show ?thesis by simp
  next
    case True
    then have eq: "[n - Suc m..<n] = (n - Suc m) # [n - m..<n]"
      by (simp add: upt_conv_Cons Suc_diff_Suc)
    let ?st = "st\<lparr>emitted := emitted st @ [ascii ''Cannot stringify a function '' @ name]\<rparr>"
    have item: "array_item (heap st) a (n - Suc m) = Some (Ref f)"
      using Suc.prems True by (simp add: array_item_def)
    have "forEach (\<lambda>i s. case array_item (heap s) a i of
                          None \<Rightarrow> Inr s
                        | Some item \<Rightarrow> walk (Suc d) E s item parent key (Some i))
           [n - m..<n] ?st
         = Inr (?st\<lparr>emitted := emitted ?st
                   @ replicate (min m n) (ascii ''Cannot stringify a function '' @ name)\<rparr>)"
      using Suc.prems by (intro Suc.IH) simp_all
    then show ?thesis
      using True Suc.prems item by (simp add: eq min_def replicate_append_same)
  qed
qed

lemma array_of_functions:
  "devalue (Suc (Suc d)) E
     (h(0 := ArrayObj (replicate n (Some (Ref 1))), 1 := returning ''f'' v)) (Ref 0)
   = Inr (ascii ''['' @ join (ascii '','') (replicate n (ascii ''{}'')) @ ascii '']'',
          (initial (h(0 := ArrayObj (replicate n (Some (Ref 1))), 1 := returning ''f'' v)))
            \<lparr>counts := [(Ref 0, Count 1)],
             emitted := replicate n (ascii ''Cannot stringify a function f'')\<rparr>)"
proof -
  let ?h = "h(0 := ArrayObj (replicate n (Some (Ref 1))), 1 := returning ''f'' v)"
  let ?st1 = "(initial ?h)\<lparr>counts := [(Ref 0, Count 1)]\<rparr>"
  have w: "walk (Suc (Suc d)) E (initial ?h) (Ref 0) None None None
      = Inr (?st1\<lparr>emitted := emitted ?st1
               @ replicate (min n n) (ascii ''Cannot stringify a function '' @ ascii ''f'')\<rparr>)"
    using forEach_functions [of ?st1 0 n 1 "ascii ''f''" "Returns v" d E None None n]
    by (simp add: initial_def as_function_def returning_def table_defs)
  have s: "stringify (Suc (Suc d)) E [] ?h (Ref 0)
      = Inr (ascii ''['' @ join (ascii '','') (replicate n (ascii ''{}'')) @ ascii '']'', [])"
    by (cases "n = 0")
      (simp_all add: table_defs returning_def function_prototype_def keys_defs collect_replicate
         tail_def ascii_def)
  show ?thesis
    unfolding devalue_def w
    using s by (simp add: make_names_def initial_def) (simp add: ascii_def)
qed

text \<open>
  C5, the cap on diagnostics, at an array of 100 functions with the default cap 99: 100
  diagnostics are emitted. The diagnostic for a function goes to \<open>consola[level]\<close>
  directly (line 41) and not through \<^verbatim>\<open>log\<close>, which is what counts and caps.
\<close>

theorem function_diagnostics_exceed_cap:
  "map_sum id (\<lambda>r. length (emitted (snd r)))
     (devalue 100 default_env
        (blank(0 := ArrayObj (replicate 100 (Some (Ref 1))), 1 := returning ''f'' Undefined))
        (Ref 0))
   = Inr 100
   \<and> logLimit default_env = 99"
  using array_of_functions [of 98 default_env blank 100 Undefined]
  by (simp add: default_env_def)

section \<open>Records of another class\<close>

lemma foreign_children:
  "map_sum id (\<lambda>r. (fst r, counts (snd r), emitted (snd r)))
     (devalue (Suc (Suc d)) default_env
        (h(0 := point [(ascii ''a'', Ref 1), (ascii ''b'', Ref 1)], 1 := plain [])) (Ref 0))
   = Inr (ascii ''{a:{},b:{}}'', [(Ref 0, Count 1)],
          [ascii ''Cannot stringify arbitrary non-POJOs Point''])"
  by (simp add: eval_simps default_env_def)

text \<open>
  C7, as stated: for a record of another class the traversal reports the unsupported
  type and still descends into the record's own keys. It does not descend: for
  \<open>p = new Point()\<close> with \<open>p.a = p.b = s\<close>, the table \<^verbatim>\<open>counts\<close> holds \<open>p\<close> alone
  after the call; \<open>s\<close>, met under two keys, was never counted, and the text renders it
  twice.
\<close>

theorem foreign_record_not_traversed:
  "map_sum id (\<lambda>r. (fst r, counts (snd r), emitted (snd r)))
     (devalue 100 default_env
        (blank(0 := point [(ascii ''a'', Ref 1), (ascii ''b'', Ref 1)], 1 := plain [])) (Ref 0))
   = Inr (ascii ''{a:{},b:{}}'', [(Ref 0, Count 1)],
          [ascii ''Cannot stringify arbitrary non-POJOs Point''])"
  using foreign_children [of 98 blank] by simp

text \<open>
  C7, amended: for every keyed record that is not a function, has no \<open>toJSON\<close> member,
  has a constructor, and whose prototype is neither \<open>Object.prototype\<close> nor \<open>null\<close>
  nor an object with the own property names of \<open>Object.prototype\<close>: the first encounter
  in the traversal enters the record in \<^verbatim>\<open>counts\<close> with count 1 and passes the
  diagnostic \<open>Cannot stringify arbitrary non-POJOs\<close> with the constructor's name to
  \<^verbatim>\<open>log\<close> (which emits it while the cap is not reached), and that is all: the
  traversal does not descend into the record, its values are not counted. The emitter
  still renders every own string key. Where the record has no name, its text is the brace
  list, in the order of \<open>Object.keys\<close>, of each key as \<^verbatim>\<open>safeKey\<close> writes it, a colon
  and the text of the key's value. Where it has a name (it was met more than once), its
  text is the name, its shell is \<open>{}\<close> and each key gives one statement: the name, the
  key as \<^verbatim>\<open>safeProp\<close> writes it, \<open>=\<close> and the text of the key's value. In both
  cases an error of rendering a value is the error of the whole.
\<close>

theorem foreign_record:
  assumes "h a = KeyedObj ob" and "callable ob = None"
    and "proto ob = OtherPrototype names (Some ctor)"
    and "names \<noteq> objectProtoOwnPropertyNames E"
    and "\<not> truthy (get_toJSON ob)"
    and "heap st = h"
    and "Map_get (counts st) (Ref a) = None"
  shows "walk (Suc d) E st (Ref a) parent key index =
           Inr (log E (ascii ''Cannot stringify arbitrary non-POJOs '' @ ctor)
                  (st\<lparr>counts := Map_set (counts st) (Ref a) (Count 1)\<rparr>))
       \<and> stringify (Suc d') E nm h (Ref a) =
           (case Map_get nm (Ref a) of
              Some n \<Rightarrow> Inr (n, [])
            | None \<Rightarrow>
                (case collect (map (\<lambda>k. stringify d' E nm h (get_prop ob k)) (Object_keys ob)) of
                   Inl e \<Rightarrow> Inl e
                 | Inr rs \<Rightarrow>
                     Inr (ascii ''{''
                          @ join (ascii '','')
                              (map (\<lambda>(k, r). safeKey E k @ ascii '':'' @ fst r)
                                 (zip (Object_keys ob) rs))
                          @ ascii ''}'',
                          concat (map snd rs))))
       \<and> binding d' E nm h (Ref a, n) =
           (case collect (map (\<lambda>k. stringify d' E nm h (get_prop ob k)) (Object_keys ob)) of
              Inl e \<Rightarrow> Inl e
            | Inr rs \<Rightarrow>
                Inr (ascii ''{}'',
                     map (\<lambda>(k, r). n @ safeProp E k @ ascii ''='' @ fst r) (zip (Object_keys ob) rs),
                     concat (map snd rs)))"
proof (intro conjI)
  have nf: "as_function (heap st) (Ref a) = None"
    using assms by (simp add: as_function_def)
  have nj: "as_function h (get_toJSON ob) = None"
    using assms by (simp add: falsy_not_function)
  show "walk (Suc d) E st (Ref a) parent key index =
           Inr (log E (ascii ''Cannot stringify arbitrary non-POJOs '' @ ctor)
                  (st\<lparr>counts := Map_set (counts st) (Ref a) (Count 1)\<rparr>))"
    using assms nf nj by simp
  have np: "proto ob \<noteq> NullPrototype"
    using assms by simp
  show "stringify (Suc d') E nm h (Ref a) =
           (case Map_get nm (Ref a) of
              Some n \<Rightarrow> Inr (n, [])
            | None \<Rightarrow>
                (case collect (map (\<lambda>k. stringify d' E nm h (get_prop ob k)) (Object_keys ob)) of
                   Inl e \<Rightarrow> Inl e
                 | Inr rs \<Rightarrow>
                     Inr (ascii ''{''
                          @ join (ascii '','')
                              (map (\<lambda>(k, r). safeKey E k @ ascii '':'' @ fst r)
                                 (zip (Object_keys ob) rs))
                          @ ascii ''}'',
                          concat (map snd rs))))"
  proof (cases "Map_get nm (Ref a)")
    case None
    show ?thesis
      unfolding None option.case
      by (rule stringify_record [where h = h and a = a, OF assms(1) assms(5) np None])
  next
    case (Some n)
    then show ?thesis by simp
  qed
  show "binding d' E nm h (Ref a, n) =
           (case collect (map (\<lambda>k. stringify d' E nm h (get_prop ob k)) (Object_keys ob)) of
              Inl e \<Rightarrow> Inl e
            | Inr rs \<Rightarrow>
                Inr (ascii ''{}'',
                     map (\<lambda>(k, r). n @ safeProp E k @ ascii ''='' @ fst r) (zip (Object_keys ob) rs),
                     concat (map snd rs)))"
    using binding_record [where h = h and a = a and d = d' and E = E and nm = nm and n = n, OF assms(1)] np
    by simp
qed

theorem foreign_record_witness:
  "walk (Suc 0) default_env (initial (blank(0 := point [(ascii ''x'', Num (Finite 1))])))
       (Ref 0) None None None
     = Inr ((initial (blank(0 := point [(ascii ''x'', Num (Finite 1))])))
              \<lparr>counts := [(Ref 0, Count 1)], logNum := 1,
               emitted := [ascii ''Cannot stringify arbitrary non-POJOs Point'']\<rparr>)
   \<and> stringify (Suc (Suc 0)) default_env [] (blank(0 := point [(ascii ''x'', Num (Finite 1))]))
        (Ref 0)
     = Inr (ascii ''{x:1}'', [])
   \<and> stringify (Suc (Suc 0)) default_env [(Ref 0, ascii ''a'')]
        (blank(0 := point [(ascii ''x'', Num (Finite 1))])) (Ref 0)
     = Inr (ascii ''a'', [])
   \<and> binding (Suc 0) default_env [(Ref 0, ascii ''a'')]
        (blank(0 := point [(ascii ''x'', Num (Finite 1))])) (Ref 0, ascii ''a'')
     = Inr (ascii ''{}'', [ascii ''a.x=1''], [])"
proof -
  let ?h = "blank(0 := point [(ascii ''x'', Num (Finite 1))])"
  let ?ob = "\<lparr>callable = None,
               proto = OtherPrototype (ascii ''constructor'') (Some (ascii ''Point'')),
               symbols = [], inherited_toJSON = Undefined,
               props = [(ascii ''x'', Num (Finite 1))]\<rparr>"
  let ?nm = "[(Ref 0, ascii ''a'')]"
  have pre: "?h 0 = KeyedObj ?ob" "callable ?ob = None"
      "proto ?ob = OtherPrototype (ascii ''constructor'') (Some (ascii ''Point''))"
      "ascii ''constructor'' \<noteq> objectProtoOwnPropertyNames default_env"
      "\<not> truthy (get_toJSON ?ob)" "heap (initial ?h) = ?h"
      "Map_get (counts (initial ?h)) (Ref 0) = None"
    by (simp_all add: initial_def point_def default_env_def table_defs keys_defs text_defs)
  note t = foreign_record [where d = 0 and d' = "Suc 0" and parent = None and key = None
      and index = None and nm = "[]" and n = "ascii ''a''", OF pre]
  note u = foreign_record [where d = 0 and d' = "Suc 0" and parent = None and key = None
      and index = None and nm = ?nm and n = "ascii ''a''", OF pre]
  have l: "log default_env (ascii ''Cannot stringify arbitrary non-POJOs '' @ ascii ''Point'')
             ((initial ?h)\<lparr>counts := Map_set (counts (initial ?h)) (Ref 0) (Count 1)\<rparr>)
           = (initial ?h)\<lparr>counts := [(Ref 0, Count 1)], logNum := 1,
                 emitted := [ascii ''Cannot stringify arbitrary non-POJOs Point'']\<rparr>"
    by (simp add: log_def initial_def table_defs default_env_def ascii_def)
  have r: "(case Map_get [] (Ref 0) of
              Some n \<Rightarrow> Inr (n, [])
            | None \<Rightarrow>
                (case collect (map (\<lambda>k. stringify (Suc 0) default_env [] ?h (get_prop ?ob k)) (Object_keys ?ob)) of
                   Inl e \<Rightarrow> Inl e
                 | Inr rs \<Rightarrow>
                     Inr (ascii ''{''
                          @ join (ascii '','')
                              (map (\<lambda>(k, r). safeKey default_env k @ ascii '':'' @ fst r)
                                 (zip (Object_keys ?ob) rs))
                          @ ascii ''}'',
                          concat (map snd rs))))
      = Inr (ascii ''{x:1}'', [])"
    by (simp add: eval_simps)
  have q: "(case Map_get ?nm (Ref 0) of
              Some n \<Rightarrow> Inr (n, [])
            | None \<Rightarrow>
                (case collect (map (\<lambda>k. stringify (Suc 0) default_env ?nm ?h (get_prop ?ob k)) (Object_keys ?ob)) of
                   Inl e \<Rightarrow> Inl e
                 | Inr rs \<Rightarrow>
                     Inr (ascii ''{''
                          @ join (ascii '','')
                              (map (\<lambda>(k, r). safeKey default_env k @ ascii '':'' @ fst r)
                                 (zip (Object_keys ?ob) rs))
                          @ ascii ''}'',
                          concat (map snd rs))))
      = Inr (ascii ''a'', [])"
    by (simp add: table_defs)
  have b: "(case collect (map (\<lambda>k. stringify (Suc 0) default_env ?nm ?h (get_prop ?ob k)) (Object_keys ?ob)) of
              Inl e \<Rightarrow> Inl e
            | Inr rs \<Rightarrow>
                Inr (ascii ''{}'',
                     map (\<lambda>(k, r). ascii ''a'' @ safeProp default_env k @ ascii ''='' @ fst r) (zip (Object_keys ?ob) rs),
                     concat (map snd rs)))
      = Inr (ascii ''{}'', [ascii ''a.x=1''], [])"
    by (simp add: eval_simps)
  from t [THEN conjunct1]
  have "walk (Suc 0) default_env (initial ?h) (Ref 0) None None None
      = Inr ((initial ?h)\<lparr>counts := [(Ref 0, Count 1)], logNum := 1,
                 emitted := [ascii ''Cannot stringify arbitrary non-POJOs Point'']\<rparr>)"
    unfolding l .
  moreover from t [THEN conjunct2, THEN conjunct1]
  have "stringify (Suc (Suc 0)) default_env [] ?h (Ref 0) = Inr (ascii ''{x:1}'', [])"
    unfolding r .
  moreover from u [THEN conjunct2, THEN conjunct1]
  have "stringify (Suc (Suc 0)) default_env ?nm ?h (Ref 0) = Inr (ascii ''a'', [])"
    unfolding q .
  moreover from u [THEN conjunct2, THEN conjunct2]
  have "binding (Suc 0) default_env ?nm ?h (Ref 0, ascii ''a'') = Inr (ascii ''{}'', [ascii ''a.x=1''], [])"
    unfolding b .
  ultimately show ?thesis by (intro conjI)
qed


section \<open>What the traversal preserves\<close>

text \<open>
  An invariant \<open>P\<close> of the state holds after \<^verbatim>\<open>walk\<close> when the assignments to the
  tables, the diagnostics and the conversion with its splice preserve it. \<open>Q\<close> is a
  property of the walked value that passes to what the value refers to.
\<close>

lemma forEach_invariant:
  assumes "P st" and "forEach f xs st = Inr st'"
    and "\<And>x s s'. x \<in> set xs \<Longrightarrow> P s \<Longrightarrow> f x s = Inr s' \<Longrightarrow> P s'"
  shows "P st'"
  using assms
proof (induction xs arbitrary: st)
  case Nil
  then show ?case by simp
next
  case (Cons x xs)
  from Cons.prems(2) obtain s1 where s1: "f x st = Inr s1" and rest: "forEach f xs s1 = Inr st'"
    by (auto split: sum.splits)
  have p1: "P s1" using Cons.prems(3) [of x st s1] Cons.prems(1) s1 by simp
  have step: "P s'" if "y \<in> set xs" "P s" "f y s = Inr s'" for y s s'
    using Cons.prems(3) [of y s s'] that by simp
  show ?case
    by (rule Cons.IH [OF p1 rest]) (rule step)
qed

lemma walk_invariant:
  assumes cnt: "\<And>s c. P s \<Longrightarrow> P (s\<lparr>counts := c\<rparr>)"
    and emit: "\<And>s v name body. P s \<Longrightarrow> Q v \<Longrightarrow> as_function (heap s) v = Some (name, body) \<Longrightarrow>
        P (s\<lparr>emitted := emitted s @ [ascii ''Cannot stringify a function '' @ name]\<rparr>)"
    and lg: "\<And>s m. P s \<Longrightarrow> P (log E m s)"
    and conv: "\<And>s a ob json s2 p k i s3. P s \<Longrightarrow> Q (Ref a) \<Longrightarrow> heap s a = KeyedObj ob \<Longrightarrow>
        truthy (get_toJSON ob) \<Longrightarrow> convert E s a ob = Inr (json, s2) \<Longrightarrow>
        splice_json s2 p k i json = Inr s3 \<Longrightarrow> P s3"
    and arr: "\<And>s a es i v. P s \<Longrightarrow> Q (Ref a) \<Longrightarrow> heap s a = ArrayObj es \<Longrightarrow> i < length es \<Longrightarrow>
        es ! i = Some v \<Longrightarrow> Q v"
    and mem: "\<And>s a ms v. P s \<Longrightarrow> Q (Ref a) \<Longrightarrow> heap s a = SetObj ms \<Longrightarrow> v \<in> set ms \<Longrightarrow> Q v"
    and ent: "\<And>s a es k v. P s \<Longrightarrow> Q (Ref a) \<Longrightarrow> heap s a = MapObj es \<Longrightarrow> (k, v) \<in> set es \<Longrightarrow>
        Q k \<and> Q v"
    and prim: "\<And>v. isPrimitive v \<Longrightarrow> Q v"
    and prp: "\<And>s a ob k v. P s \<Longrightarrow> Q (Ref a) \<Longrightarrow> heap s a = KeyedObj ob \<Longrightarrow>
        (k, v) \<in> set (props ob) \<Longrightarrow> Q v"
  shows "P st \<Longrightarrow> Q thing \<Longrightarrow> walk d E st thing parent key index = Inr st' \<Longrightarrow> P st'"
proof (induction d arbitrary: st thing parent key index st' rule: less_induct)
  case (less d)
  show ?case
  proof (cases d)
    case 0
    with less.prems show ?thesis by simp
  next
    case (Suc d0)
    have IH: "P s' " if "P s" "Q v" "walk d0 E s v p k i = Inr s'" for s v p k i s'
      using less.IH [of d0 s v p k i s'] that Suc by simp
    show ?thesis
    proof (cases "as_function (heap st) thing")
      case (Some nb)
      obtain name body where nb: "nb = (name, body)" by (cases nb)
      with Some less.prems Suc
      have "st' = st\<lparr>emitted := emitted st @ [ascii ''Cannot stringify a function '' @ name]\<rparr>"
        by simp
      with emit [OF less.prems(1) less.prems(2)] Some nb show ?thesis by simp
    next
      case nofun: None
      show ?thesis
      proof (cases "Map_get (counts st) thing")
        case (Some c)
        with less.prems Suc nofun have "st' = st\<lparr>counts := Map_set (counts st) thing (plus1 (Some c))\<rparr>"
          by simp
        with cnt less.prems(1) show ?thesis by simp
      next
        case fresh: None
        let ?st1 = "st\<lparr>counts := Map_set (counts st) thing (Count 1)\<rparr>"
        have P1: "P ?st1" using cnt less.prems(1) by simp
        show ?thesis
        proof (cases thing)
          case (Ref a)
          have Qa: "Q (Ref a)" using less.prems(2) Ref by simp
          show ?thesis
          proof (cases "heap st a")
            case (BoxedObj b)
            with less.prems Suc nofun fresh Ref have "st' = ?st1" by simp
            with P1 show ?thesis by simp
          next
            case (DateObj t)
            with less.prems Suc nofun fresh Ref have "st' = ?st1" by simp
            with P1 show ?thesis by simp
          next
            case (RegExpObj r)
            with less.prems Suc nofun fresh Ref have "st' = ?st1" by simp
            with P1 show ?thesis by simp
          next
            case (ArrayObj es)
            let ?f = "\<lambda>i s. case array_item (heap s) a i of
                         None \<Rightarrow> Inr s
                       | Some item \<Rightarrow> walk d0 E s item parent key (Some i)"
            from less.prems Suc nofun fresh Ref ArrayObj
            have run: "forEach ?f [0..<length es] ?st1 = Inr st'" by simp
            show ?thesis
            proof (rule forEach_invariant [where P = P, OF P1 run])
              fix i s s'
              assume "i \<in> set [0..<length es]" and Ps: "P s" and f: "?f i s = Inr s'"
              show "P s'"
              proof (cases "array_item (heap s) a i")
                case None
                with f Ps show ?thesis by simp
              next
                case (Some item)
                then have "Q item"
                  using arr [OF Ps Qa] by (auto simp: array_item_def split: obj.splits if_splits)
                with Some f Ps IH show ?thesis by simp
              qed
            qed
          next
            case (SetObj ms)
            from less.prems Suc nofun fresh Ref SetObj
            have run: "forEach (\<lambda>item s. walk d0 E s item parent key None) ms ?st1 = Inr st'"
              by simp
            have Qm: "Q v" if "v \<in> set ms" for v
              using mem [OF P1 Qa _ that] SetObj by simp
            show ?thesis
              by (rule forEach_invariant [where P = P, OF P1 run]) (use Qm IH in blast)
          next
            case (MapObj es)
            let ?f = "\<lambda>(k, v) s.
                 case d0 of
                   0 \<Rightarrow> Inl RangeError
                 | Suc d' \<Rightarrow>
                     (case walk d' E s k parent key (Some 0) of
                        Inl e \<Rightarrow> Inl e
                      | Inr s' \<Rightarrow> walk d' E s' v parent key (Some 1))"
            from less.prems Suc nofun fresh Ref MapObj
            have run: "forEach ?f es ?st1 = Inr st'" by simp
            have Qe: "Q k \<and> Q v" if "(k, v) \<in> set es" for k v
              using ent [OF P1 Qa _ that] MapObj by simp
            show ?thesis
            proof (rule forEach_invariant [where P = P, OF P1 run])
              fix x s s'
              assume x: "x \<in> set es" and Ps: "P s" and f: "?f x s = Inr s'"
              obtain k v where kv: "x = (k, v)" by (cases x)
              from f kv obtain d' where d': "d0 = Suc d'" by (cases d0) auto
              from f kv d' obtain s1 where s1: "walk d' E s k parent key (Some 0) = Inr s1"
                and s2: "walk d' E s1 v parent key (Some 1) = Inr s'"
                by (auto split: sum.splits)
              have lt: "d' < d" using d' Suc by simp
              from Qe x kv have "Q k" "Q v" by auto
              then have "P s1" using less.IH [OF lt Ps _ s1] by simp
              then show "P s'" using less.IH [OF lt _ \<open>Q v\<close> s2] by simp
            qed
          next
            case (KeyedObj ob)
            show ?thesis
            proof (cases "truthy (get_toJSON ob)")
              case True
              with less.prems Suc nofun fresh Ref KeyedObj
              obtain json s2 where c: "convert E ?st1 a ob = Inr (json, s2)"
                and sp: "splice_json s2 parent key index json = Inr st'"
                by (auto split: sum.splits)
              show ?thesis
                using conv [OF P1 Qa _ True c sp] KeyedObj by simp
            next
              case False
              show ?thesis
              proof (cases "case proto ob of OtherPrototype names ctor \<Rightarrow> names \<noteq> objectProtoOwnPropertyNames E | _ \<Rightarrow> False")
                case True
                with less.prems Suc nofun fresh Ref KeyedObj False
                have "st' = ?st1 \<or> (\<exists>m. st' = log E m ?st1)"
                  by (auto simp: Let_def split: if_splits proto.splits option.splits)
                with P1 lg show ?thesis by auto
              next
                case foreign: False
                show ?thesis
                proof (cases "symbols ob \<noteq> []")
                  case True
                  with less.prems Suc nofun fresh Ref KeyedObj False foreign
                  have "\<exists>m. st' = log E m ?st1"
                    by auto
                  with P1 lg show ?thesis by auto
                next
                  case nosym: False
                  from less.prems Suc nofun fresh Ref KeyedObj False foreign nosym
                  have run: "forEach (\<lambda>k s. walk d0 E s (read_prop (heap s) a k) (Some a) (Some k) None)
                       (Object_keys ob) ?st1 = Inr st'"
                    by simp
                  show ?thesis
                  proof (rule forEach_invariant [where P = P, OF P1 run])
                    fix k s s'
                    assume k: "k \<in> set (Object_keys ob)" and Ps: "P s"
                      and f: "walk d0 E s (read_prop (heap s) a k) (Some a) (Some k) None = Inr s'"
                    have "Q (read_prop (heap s) a k)"
                    proof (cases "heap s a")
                      case (KeyedObj ob')
                      show ?thesis
                      proof (cases "map_of (props ob') k")
                        case None
                        then show ?thesis
                          using KeyedObj prim by (simp add: read_prop_def get_prop_def)
                      next
                        case (Some v)
                        then have "(k, v) \<in> set (props ob')" by (rule map_of_SomeD)
                        then have "Q v" using prp [OF Ps Qa KeyedObj] by simp
                        then show ?thesis
                          using KeyedObj Some by (simp add: read_prop_def get_prop_def)
                      qed
                    qed (use prim in \<open>simp_all add: read_prop_def\<close>)
                    then show "P s'" using IH [OF Ps _ f] by simp
                  qed
                qed
              qed
            qed
          qed
        qed (use less.prems Suc nofun fresh P1 in auto)
      qed
    qed
  qed
qed

section \<open>The input is left as it was\<close>

lemma devalue_walk:
  assumes "devalue d E h v = Inr (out, st)"
  shows "\<exists>s l. walk d E (initial h) v None None None = Inr s \<and> st = s\<lparr>invoked := invoked s @ l\<rparr>"
  using assms by (auto simp: devalue_def Let_def split: sum.splits if_splits prod.splits)

lemma no_toJSON_child:
  "no_toJSON h (Ref a) \<Longrightarrow> v \<in> set (children (h a)) \<Longrightarrow> no_toJSON h v"
  unfolding no_toJSON_def by (blast intro: reaches.step)

lemma no_toJSON_primitive: "isPrimitive v \<Longrightarrow> no_toJSON h v"
  unfolding no_toJSON_def by (auto elim: reaches.cases)

lemma walk_keeps_heap:
  assumes "no_toJSON h v" and "heap st = h" and "walk d E st v parent key index = Inr st'"
  shows "heap st' = h"
proof -
  let ?P = "\<lambda>s :: wstate. heap s = h"
  have cnt: "?P (s\<lparr>counts := c\<rparr>)" if "?P s" for s c
    using that by simp
  have emit: "?P (s\<lparr>emitted := m\<rparr>)"
    if "?P s" "no_toJSON h x" "as_function (heap s) x = Some nb" for s m x nb
    using that by simp
  have lg: "?P (log E m s)" if "?P s" for s m
    using that by (simp add: log_def)
  have conv: "?P s3"
    if "?P s" "no_toJSON h (Ref a)" "heap s a = KeyedObj ob" "truthy (get_toJSON ob)"
    for s a ob and s3 :: wstate
  proof -
    from that have False
      unfolding no_toJSON_def using reaches.here [of h a] by blast
    then show ?thesis ..
  qed
  have arr: "no_toJSON h x"
    if "?P s" "no_toJSON h (Ref a)" "heap s a = ArrayObj es" "i < length es" "es ! i = Some x"
    for s a es i x
  proof -
    from that have "Some x \<in> set es" by (auto simp: in_set_conv_nth)
    with that have "x \<in> set (children (h a))" by force
    with that show ?thesis by (blast intro: no_toJSON_child)
  qed
  have mem: "no_toJSON h x"
    if "?P s" "no_toJSON h (Ref a)" "heap s a = SetObj ms" "x \<in> set ms" for s a ms x
  proof -
    from that have "x \<in> set (children (h a))" by simp
    with that show ?thesis by (blast intro: no_toJSON_child)
  qed
  have ent: "no_toJSON h k \<and> no_toJSON h x"
    if "?P s" "no_toJSON h (Ref a)" "heap s a = MapObj es" "(k, x) \<in> set es" for s a es k x
  proof -
    from that have "k \<in> set (children (h a))" "x \<in> set (children (h a))" by force+
    with that show ?thesis by (blast intro: no_toJSON_child)
  qed
  have prp: "no_toJSON h x"
    if "?P s" "no_toJSON h (Ref a)" "heap s a = KeyedObj ob" "(k, x) \<in> set (props ob)"
    for s a ob k x
  proof -
    from that have "x \<in> set (children (h a))" by force
    with that show ?thesis by (blast intro: no_toJSON_child)
  qed
  show ?thesis
    by (rule walk_invariant [where P = ?P and Q = "no_toJSON h" and E = E,
          OF cnt emit lg conv arr mem ent no_toJSON_primitive prp assms(2) assms(1) assms(3)])
qed

lemma no_toJSON_anywhere:
  "(\<And>a ob. h a = KeyedObj ob \<Longrightarrow> \<not> truthy (get_toJSON ob)) \<Longrightarrow> no_toJSON h v"
  unfolding no_toJSON_def by blast

text \<open>
  C10: when no object of the input's value graph has a \<open>toJSON\<close> member, the store after
  a call of \<^verbatim>\<open>devalue\<close> that returns is the store before it: no element, entry or
  property of any object was written. This holds for every environment and stack depth
  (only the splice of a converted value writes to the store, and \<^verbatim>\<open>stringify\<close> writes
  nothing).
\<close>

theorem input_unchanged:
  assumes "no_toJSON h v" and "devalue d E h v = Inr (out, st)"
  shows "heap st = h"
proof -
  from devalue_walk [OF assms(2)] obtain s l
    where s: "walk d E (initial h) v None None None = Inr s"
      and st: "st = s\<lparr>invoked := invoked s @ l\<rparr>"
    by blast
  have "heap s = h"
    using walk_keeps_heap [OF assms(1) _ s] by (simp add: initial_def)
  with st show ?thesis by simp
qed

lemma scenario_state:
  "devalue (Suc (Suc (Suc d))) E
     (h(0 := plain [(ascii ''a'', Num (Finite 1)), (ascii ''b'', Ref 1)],
        1 := ArrayObj [Some (Num (Finite 1)), Some (Num (Finite 2)), Some (Num (Finite 3))]))
     (Ref 0)
   = Inr (ascii ''(function(a){return {a:a,b:[a,2,3]}}(1))'',
          (initial (h(0 := plain [(ascii ''a'', Num (Finite 1)), (ascii ''b'', Ref 1)],
             1 := ArrayObj [Some (Num (Finite 1)), Some (Num (Finite 2)), Some (Num (Finite 3))])))
            \<lparr>counts := [(Ref 0, Count 1), (Num (Finite 1), Count 2), (Ref 1, Count 1),
                        (Num (Finite 2), Count 1), (Num (Finite 3), Count 1)]\<rparr>)"
  by (simp add: eval_simps)

theorem input_unchanged_witness:
  "\<exists>out st.
     devalue 100 default_env
       (blank(0 := plain [(ascii ''a'', Num (Finite 1)), (ascii ''b'', Ref 1)],
              1 := ArrayObj [Some (Num (Finite 1)), Some (Num (Finite 2)), Some (Num (Finite 3))]))
       (Ref 0) = Inr (out, st)
     \<and> heap st =
         blank(0 := plain [(ascii ''a'', Num (Finite 1)), (ascii ''b'', Ref 1)],
               1 := ArrayObj [Some (Num (Finite 1)), Some (Num (Finite 2)), Some (Num (Finite 3))])"
proof -
  let ?h = "blank(0 := plain [(ascii ''a'', Num (Finite 1)), (ascii ''b'', Ref 1)],
              1 := ArrayObj [Some (Num (Finite 1)), Some (Num (Finite 2)), Some (Num (Finite 3))])"
  have n: "no_toJSON ?h (Ref 0)"
    by (rule no_toJSON_anywhere) (auto simp: blank_def plain_def get_toJSON_def ascii_def split: if_splits)
  from scenario_state [of 97 default_env blank]
  obtain out st where r: "devalue 100 default_env ?h (Ref 0) = Inr (out, st)"
    by simp
  from input_unchanged [OF n r] r show ?thesis by blast
qed

section \<open>The cap on diagnostics\<close>

lemma no_callable_child:
  "no_callable h (Ref a) \<Longrightarrow> v \<in> set (children (h a)) \<Longrightarrow> no_callable h v"
  unfolding no_callable_def by (blast intro: reaches.step)

lemma no_callable_primitive: "isPrimitive v \<Longrightarrow> no_callable h v"
  unfolding no_callable_def by (auto elim: reaches.cases)

lemma no_callable_not_function: "no_callable h v \<Longrightarrow> as_function h v = None"
proof (cases v)
  case (Ref a)
  assume "no_callable h v"
  with Ref have "\<And>ob. h a = KeyedObj ob \<Longrightarrow> callable ob = None"
    unfolding no_callable_def using reaches.here [of h a] by blast
  with Ref show ?thesis
    by (auto simp: as_function_def split: obj.splits)
qed (simp_all add: as_function_def)

lemma walk_capped:
  assumes "no_toJSON h v" and "no_callable h v"
    and "heap st = h" and "length (emitted st) = logNum st" and "logNum st \<le> logLimit E"
    and "walk d E st v parent key index = Inr st'"
  shows "heap st' = h \<and> length (emitted st') = logNum st' \<and> logNum st' \<le> logLimit E"
proof -
  let ?P = "\<lambda>s :: wstate. heap s = h \<and> length (emitted s) = logNum s \<and> logNum s \<le> logLimit E"
  let ?Q = "\<lambda>x. no_toJSON h x \<and> no_callable h x"
  have cnt: "?P (s\<lparr>counts := c\<rparr>)" if "?P s" for s c
    using that by simp
  have emit: "?P (s\<lparr>emitted := emitted s @ [ascii ''Cannot stringify a function '' @ name]\<rparr>)"
    if "?P s" "?Q x" "as_function (heap s) x = Some (name, body)" for s x name body
    using that no_callable_not_function [of h x] by simp
  have lg: "?P (log E m s)" if "?P s" for s m
    using that by (simp add: log_def)
  have conv: "?P s3"
    if "?P s" "?Q (Ref a)" "heap s a = KeyedObj ob" "truthy (get_toJSON ob)"
    for s a ob and s3 :: wstate
  proof -
    from that have False
      unfolding no_toJSON_def using reaches.here [of h a] by blast
    then show ?thesis ..
  qed
  have kid: "?Q x" if "?Q (Ref a)" "x \<in> set (children (h a))" for a x
    using that no_toJSON_child no_callable_child by blast
  have arr: "?Q x"
    if "?P s" "?Q (Ref a)" "heap s a = ArrayObj es" "i < length es" "es ! i = Some x"
    for s a es i x
  proof -
    from that have "Some x \<in> set es" by (auto simp: in_set_conv_nth)
    with that have "x \<in> set (children (h a))" by force
    with that show ?thesis using kid by blast
  qed
  have mem: "?Q x"
    if "?P s" "?Q (Ref a)" "heap s a = SetObj ms" "x \<in> set ms" for s a ms x
  proof -
    from that have "x \<in> set (children (h a))" by auto
    with that show ?thesis using kid by blast
  qed
  have ent: "?Q k \<and> ?Q x"
    if "?P s" "?Q (Ref a)" "heap s a = MapObj es" "(k, x) \<in> set es" for s a es k x
  proof -
    from that have "k \<in> set (children (h a))" "x \<in> set (children (h a))" by force+
    with that show ?thesis using kid by blast
  qed
  have prim: "?Q x" if "isPrimitive x" for x
    using that no_toJSON_primitive no_callable_primitive by blast
  have prp: "?Q x"
    if "?P s" "?Q (Ref a)" "heap s a = KeyedObj ob" "(k, x) \<in> set (props ob)"
    for s a ob k x
  proof -
    from that have "x \<in> set (children (h a))" by force
    with that show ?thesis using kid by blast
  qed
  have P0: "?P st" and Q0: "?Q v" using assms by simp_all
  show ?thesis
    by (rule walk_invariant [where P = ?P and Q = ?Q and E = E,
          OF cnt emit lg conv arr mem ent prim prp P0 Q0 assms(6)])
qed

text \<open>
  The cap of \<^verbatim>\<open>log\<close> holds where no function is met: when the graph of the input has
  neither a function nor a \<open>toJSON\<close> member, a call that returns has emitted at most
  \<^verbatim>\<open>logLimit\<close> diagnostics. With the cap 2 and three instances of a class, two
  diagnostics are emitted.
\<close>

lemma diagnostics_capped:
  assumes "no_toJSON h v" and "no_callable h v" and "devalue d E h v = Inr (out, st)"
  shows "length (emitted st) \<le> logLimit E"
proof -
  from devalue_walk [OF assms(3)] obtain s l
    where s: "walk d E (initial h) v None None None = Inr s"
      and st: "st = s\<lparr>invoked := invoked s @ l\<rparr>"
    by blast
  from s have "length (emitted s) \<le> logLimit E"
    using walk_capped [OF assms(1) assms(2), of "initial h" E d None None None s]
    by (simp add: initial_def)
  with st show ?thesis by simp
qed

lemma three_points:
  "map_sum id (\<lambda>r. (fst r, emitted (snd r)))
     (devalue (Suc (Suc d)) (default_env\<lparr>logLimit := 2\<rparr>)
        (h(0 := plain [(ascii ''a'', Ref 1), (ascii ''b'', Ref 2), (ascii ''c'', Ref 3)],
           1 := point [], 2 := point [], 3 := point []))
        (Ref 0))
   = Inr (ascii ''{a:{},b:{},c:{}}'',
          [ascii ''Cannot stringify arbitrary non-POJOs Point'',
           ascii ''Cannot stringify arbitrary non-POJOs Point''])"
  by (simp add: eval_simps default_env_def)

section \<open>Conversion\<close>

lemma Map_get_set: "Map_get (Map_set m k v) k' = (if key_of k' = key_of k then Some v else Map_get m k')"
  by (simp add: Map_get_def Map_set_def update_conv')

lemma Map_delete_set_fresh:
  "Map_get m k = None \<Longrightarrow> Map_delete (Map_set m k v) k = m"
  by (simp add: Map_get_def Map_set_def Map_delete_def delete_update_same map_of_eq_None_iff)

lemma convert_once:
  assumes "once s" and "convert E s a ob = Inr (json, s2)"
  shows "once s2"
proof (cases "Map_get (mapObjToJSON s) (Ref a)")
  case (Some cached)
  with assms(2) have "invoked s2 = invoked s" "mapObjToJSON s2 = mapObjToJSON s"
    by (auto simp: convert_def Let_def)
  with assms(1) show ?thesis by (simp add: once_def)
next
  case None
  with assms(2) have inv: "invoked s2 = invoked s @ [a]"
    and cache: "mapObjToJSON s2 = Map_set (mapObjToJSON s) (Ref a) json"
    by (auto simp: convert_def Let_def split: sum.splits option.splits prod.splits)
  from None assms(1) have "a \<notin> set (invoked s)"
    by (auto simp: once_def)
  with assms(1) inv cache show ?thesis
    by (auto simp: once_def Map_get_set)
qed

lemma splice_json_once:
  "splice_json s parent key index json = Inr s' \<Longrightarrow> once s' = once s"
  by (auto simp: splice_json_def once_def split: option.splits sum.splits)

lemma walk_once:
  assumes "once st" and "walk d E st v parent key index = Inr st'"
  shows "once st'"
proof -
  have cnt: "once (s\<lparr>counts := c\<rparr>)" if "once s" for s c
    using that by (simp add: once_def)
  have emit: "once (s\<lparr>emitted := m\<rparr>)"
    if "once s" "True" "as_function (heap s) x = Some nb" for s m x nb
    using that by (simp add: once_def)
  have lg: "once (log E m s)" if "once s" for s m
    using that by (simp add: log_def once_def)
  have conv: "once s3"
    if "once s" "convert E s a ob = Inr (json, s2)" "splice_json s2 p k i json = Inr s3"
    for s a ob json s2 p k i s3
    using that convert_once splice_json_once by blast
  show ?thesis
    by (rule walk_invariant [where P = once and Q = "\<lambda>x. True" and E = E,
          OF cnt emit lg conv _ _ _ _ _ assms(1) _ assms(2)]) simp_all
qed

lemma converted_children:
  "map_sum id (\<lambda>r. (fst r, counts (snd r), invoked (snd r)))
     (devalue (Suc (Suc (Suc d))) E
        (h(0 := plain [(ascii ''x'', Ref 1)],
           1 := KeyedObj \<lparr>callable = None, proto = ObjectPrototype, symbols = [],
                          inherited_toJSON = Ref 2, props = []\<rparr>,
           2 := returning ''toJSON'' (Ref 3),
           3 := ArrayObj [Some (Ref 4), Some (Ref 4)],
           4 := plain []))
        (Ref 0))
   = Inr (ascii ''{x:[{},{}]}'', [(Ref 0, Count 1), (Ref 3, Count 1)], [1])"
  by (simp add: eval_simps Let_def)

lemma shared_run:
  "\<exists>s. walk (Suc (Suc d)) E (initial shared_conversion) (Ref 0) None None None = Inr s
       \<and> invoked s = [1]"
  by (simp add: eval_simps Let_def)

lemma not_json_twice:
  assumes "\<And>g. JSON_parse E (ascii ''not json'') g = None"
  shows "map_sum id (\<lambda>r. (fst r, invoked (snd r)))
     (devalue (Suc (Suc (Suc d))) E
        (h(0 := plain [(ascii ''x'', Ref 1)],
           1 := converting (Ref 2),
           2 := returning ''toJSON'' (Str (ascii ''not json''))))
        (Ref 0))
   = Inr (ascii ''{x:'' @ quote # ascii ''not json'' @ quote # ascii ''}'', [1, 1])"
  using assms by (simp add: eval_simps Let_def stringifyString_def)

text \<open>
  C6, as stated: the conversion method is invoked at most once for a node, and the
  converted result is itself recursively canonicalized, its children counted. Neither
  holds. For \<open>{x: t}\<close> where \<open>t.toJSON()\<close> returns the array \<open>[s, s]\<close>, the table
  \<^verbatim>\<open>counts\<close> holds the root and the array after the call and nothing else; \<open>s\<close>, which
  the array holds twice, was never counted and is rendered twice. For \<open>{x: t}\<close> where
  \<open>t.toJSON()\<close> returns the string \<open>not json\<close>, which \<open>JSON.parse\<close> rejects,
  \<^verbatim>\<open>walk\<close> calls the method and leaves \<open>t\<close> where it is, and \<^verbatim>\<open>stringify\<close> calls
  it again: the method of the one node \<open>t\<close> is invoked twice.
\<close>

theorem conversion_twice_and_not_traversed:
  "map_sum id (\<lambda>r. (fst r, counts (snd r), invoked (snd r)))
     (devalue 100 default_env
        (blank(0 := plain [(ascii ''x'', Ref 1)],
               1 := KeyedObj \<lparr>callable = None, proto = ObjectPrototype, symbols = [],
                              inherited_toJSON = Ref 2, props = []\<rparr>,
               2 := returning ''toJSON'' (Ref 3),
               3 := ArrayObj [Some (Ref 4), Some (Ref 4)],
               4 := plain []))
        (Ref 0))
   = Inr (ascii ''{x:[{},{}]}'', [(Ref 0, Count 1), (Ref 3, Count 1)], [1])
   \<and> map_sum id (\<lambda>r. (fst r, invoked (snd r)))
       (devalue 100 default_env
          (blank(0 := plain [(ascii ''x'', Ref 1)],
                 1 := converting (Ref 2),
                 2 := returning ''toJSON'' (Str (ascii ''not json''))))
          (Ref 0))
     = Inr (ascii ''{x:'' @ quote # ascii ''not json'' @ quote # ascii ''}'', [1, 1])"
  using converted_children [of 97 default_env blank]
    not_json_twice [of default_env 97 blank]
  by (simp add: default_env_def)

text \<open>
  C6, amended. The traversal calls the conversion method of an object at most once in a
  call of \<^verbatim>\<open>devalue\<close>, however often it meets the object (among the objects that
  \<^verbatim>\<open>walk\<close> has converted, none occurs twice). For a keyed object with a \<open>toJSON\<close>
  member that \<^verbatim>\<open>walk\<close> meets while it has no count: when its conversion is cached,
  nothing is called, the cached value is counted once more (\<open>counts.get(json) + 1\<close>) and
  spliced into the parent; when it is not cached and the method returns, the call is
  recorded, the result (parsed when it is a string that \<open>JSON.parse\<close> accepts, the
  object itself when it is a string that \<open>JSON.parse\<close> rejects) is cached, entered in
  \<^verbatim>\<open>counts\<close> with count 1 and spliced into the parent. In both cases the converted
  value is not traversed: the call of \<^verbatim>\<open>walk\<close> makes no nested call (one level of
  stack is all it uses), so the children of the converted value are not counted. The
  emitter does not use the cache: whenever it renders a keyed object with a \<open>toJSON\<close>
  member that has no name, it calls the method and renders the result (parsed when it is
  a string that \<open>JSON.parse\<close> accepts). So the method of one node can be called more
  than once in a call of \<^verbatim>\<open>devalue\<close>: once by the traversal and once for each place
  where the emitter renders the node.
\<close>

theorem conversion_once:
  assumes "heap st a = KeyedObj ob" and "callable ob = None" and "truthy (get_toJSON ob)"
    and "Map_get (counts st) (Ref a) = None"
  shows "(\<forall>d0 h v s. walk d0 E (initial h) v None None None = Inr s \<longrightarrow> distinct (invoked s))
     \<and> walk (Suc d) E st (Ref a) parent key index = walk (Suc 0) E st (Ref a) parent key index
     \<and> (\<forall>json. Map_get (mapObjToJSON st) (Ref a) = Some json \<longrightarrow>
          walk (Suc d) E st (Ref a) parent key index =
            splice_json (st\<lparr>counts := Map_set (counts st) json (plus1 (Map_get (counts st) json))\<rparr>)
              parent key index json)
     \<and> (\<forall>r. Map_get (mapObjToJSON st) (Ref a) = None \<and> call (heap st) (get_toJSON ob) = Inr r \<longrightarrow>
          walk (Suc d) E st (Ref a) parent key index =
            (case (case string_value (heap st) r of
                     None \<Rightarrow> (r, heap st)
                   | Some text \<Rightarrow>
                       (case JSON_parse E text (heap st) of
                          Some parsed \<Rightarrow> parsed
                        | None \<Rightarrow> (Ref a, heap st))) of
               (json, h') \<Rightarrow>
                 splice_json
                   (st\<lparr>invoked := invoked st @ [a], heap := h',
                       mapObjToJSON := Map_set (mapObjToJSON st) (Ref a) json,
                       counts := Map_set (counts st) json (Count 1)\<rparr>)
                   parent key index json))
     \<and> (\<forall>nm. Map_get nm (Ref a) = None \<longrightarrow>
          stringify (Suc d') E nm (heap st) (Ref a) =
            (case call (heap st) (get_toJSON ob) of
               Inl e \<Rightarrow> Inl e
             | Inr r \<Rightarrow>
                 (case (case string_value (heap st) r of
                          None \<Rightarrow> stringify d' E nm (heap st) r
                        | Some text \<Rightarrow>
                            (case JSON_parse E text (heap st) of
                               Some (parsed, h') \<Rightarrow> stringify d' E nm h' parsed
                             | None \<Rightarrow> stringify d' E nm (heap st) r)) of
                    Inl e \<Rightarrow> Inl e
                  | Inr (s, l) \<Rightarrow> Inr (s, a # l))))"
proof (intro conjI allI impI)
  fix d0 h v s
  assume "walk d0 E (initial h) v None None None = Inr s"
  moreover have "once (initial h)" by (simp add: once_def initial_def)
  ultimately have "once s" by (rule walk_once [rotated])
  then show "distinct (invoked s)" by (simp add: once_def)
next
  have nf: "as_function (heap st) (Ref a) = None"
    using assms by (simp add: as_function_def)
  let ?st1 = "st\<lparr>counts := Map_set (counts st) (Ref a) (Count 1)\<rparr>"
  have w: "walk (Suc n) E st (Ref a) parent key index =
      (case convert E ?st1 a ob of
         Inl e \<Rightarrow> Inl e
       | Inr (json, st2) \<Rightarrow> splice_json st2 parent key index json)" for n
    using assms nf by simp
  show "walk (Suc d) E st (Ref a) parent key index = walk (Suc 0) E st (Ref a) parent key index"
    by (simp only: w)
  {
    fix json
    assume "Map_get (mapObjToJSON st) (Ref a) = Some json"
    then have "convert E ?st1 a ob
        = Inr (json, st\<lparr>counts := Map_set (counts st) json (plus1 (Map_get (counts st) json))\<rparr>)"
      using assms by (simp add: convert_def Map_delete_set_fresh)
    then show "walk (Suc d) E st (Ref a) parent key index =
            splice_json (st\<lparr>counts := Map_set (counts st) json (plus1 (Map_get (counts st) json))\<rparr>)
              parent key index json"
      unfolding w by simp
  }
  {
    fix r
    assume "Map_get (mapObjToJSON st) (Ref a) = None \<and> call (heap st) (get_toJSON ob) = Inr r"
    then have "convert E ?st1 a ob =
        (case (case string_value (heap st) r of
                 None \<Rightarrow> (r, heap st)
               | Some text \<Rightarrow>
                   (case JSON_parse E text (heap st) of
                      Some parsed \<Rightarrow> parsed
                    | None \<Rightarrow> (Ref a, heap st))) of
           (json, h') \<Rightarrow>
             Inr (json,
                  st\<lparr>invoked := invoked st @ [a], heap := h',
                      mapObjToJSON := Map_set (mapObjToJSON st) (Ref a) json,
                      counts := Map_set (counts st) json (Count 1)\<rparr>))"
      using assms by (auto simp: convert_def Map_delete_set_fresh Let_def split: prod.splits option.splits)
    then show "walk (Suc d) E st (Ref a) parent key index =
            (case (case string_value (heap st) r of
                     None \<Rightarrow> (r, heap st)
                   | Some text \<Rightarrow>
                       (case JSON_parse E text (heap st) of
                          Some parsed \<Rightarrow> parsed
                        | None \<Rightarrow> (Ref a, heap st))) of
               (json, h') \<Rightarrow>
                 splice_json
                   (st\<lparr>invoked := invoked st @ [a], heap := h',
                       mapObjToJSON := Map_set (mapObjToJSON st) (Ref a) json,
                       counts := Map_set (counts st) json (Count 1)\<rparr>)
                   parent key index json)"
      unfolding w by (simp split: prod.splits)
  }
  {
    fix nm :: "(val \<times> jsstring) list"
    assume "Map_get nm (Ref a) = None"
    then show "stringify (Suc d') E nm (heap st) (Ref a) =
            (case call (heap st) (get_toJSON ob) of
               Inl e \<Rightarrow> Inl e
             | Inr r \<Rightarrow>
                 (case (case string_value (heap st) r of
                          None \<Rightarrow> stringify d' E nm (heap st) r
                        | Some text \<Rightarrow>
                            (case JSON_parse E text (heap st) of
                               Some (parsed, h') \<Rightarrow> stringify d' E nm h' parsed
                             | None \<Rightarrow> stringify d' E nm (heap st) r)) of
                    Inl e \<Rightarrow> Inl e
                  | Inr (s, l) \<Rightarrow> Inr (s, a # l)))"
      using assms by simp
  }
qed

theorem conversion_once_witness:
  "(\<exists>s. walk 100 default_env (initial shared_conversion) (Ref 0) None None None = Inr s
        \<and> invoked s = [1] \<and> distinct (invoked s))
   \<and> walk (Suc 5) default_env
        ((initial shared_conversion)\<lparr>counts := [(Ref 0, Count 1)]\<rparr>)
        (Ref 1) (Some 0) (Some (ascii ''x'')) None
     = Inr \<lparr>heap = shared_conversion(0 := plain [(ascii ''x'', Ref 3), (ascii ''y'', Ref 1)]),
            counts = [(Ref 0, Count 1), (Ref 3, Count 1)],
            mapObjToJSON = [(Ref 1, Ref 3)], logNum = 0, emitted = [], invoked = [1]\<rparr>
   \<and> walk (Suc 5) default_env
        \<lparr>heap = shared_conversion(0 := plain [(ascii ''x'', Ref 3), (ascii ''y'', Ref 1)]),
         counts = [(Ref 0, Count 1), (Ref 3, Count 1)],
         mapObjToJSON = [(Ref 1, Ref 3)], logNum = 0, emitted = [], invoked = [1]\<rparr>
        (Ref 1) (Some 0) (Some (ascii ''y'')) None
     = Inr \<lparr>heap = shared_conversion(0 := plain [(ascii ''x'', Ref 3), (ascii ''y'', Ref 3)]),
            counts = [(Ref 0, Count 1), (Ref 3, Count 2)],
            mapObjToJSON = [(Ref 1, Ref 3)], logNum = 0, emitted = [], invoked = [1]\<rparr>
   \<and> stringify (Suc (Suc 0)) default_env [] shared_conversion (Ref 1) = Inr (ascii ''[]'', [1])"
proof -
  let ?ob = "\<lparr>callable = None, proto = ObjectPrototype, symbols = [],
               inherited_toJSON = Ref 2, props = []\<rparr>"
  let ?A = "(initial shared_conversion)\<lparr>counts := [(Ref 0, Count 1)]\<rparr>"
  let ?B = "\<lparr>heap = shared_conversion(0 := plain [(ascii ''x'', Ref 3), (ascii ''y'', Ref 1)]),
             counts = [(Ref 0, Count 1), (Ref 3, Count 1)],
             mapObjToJSON = [(Ref 1, Ref 3)], logNum = 0, emitted = [], invoked = [1]\<rparr>"
  let ?C = "\<lparr>heap = shared_conversion(0 := plain [(ascii ''x'', Ref 3), (ascii ''y'', Ref 3)]),
             counts = [(Ref 0, Count 1), (Ref 3, Count 2)],
             mapObjToJSON = [(Ref 1, Ref 3)], logNum = 0, emitted = [], invoked = [1]\<rparr>"
  have preA: "heap ?A 1 = KeyedObj ?ob" "callable ?ob = None" "truthy (get_toJSON ?ob)"
      "Map_get (counts ?A) (Ref 1) = None"
    by (simp_all add: initial_def shared_conversion_def converting_def table_defs keys_defs)
  have preB: "heap ?B 1 = KeyedObj ?ob" "callable ?ob = None" "truthy (get_toJSON ?ob)"
      "Map_get (counts ?B) (Ref 1) = None"
    by (simp_all add: shared_conversion_def converting_def table_defs keys_defs)
  note tA = conversion_once [where E = default_env and d = 5 and d' = "Suc 0"
      and parent = "Some 0" and key = "Some (ascii ''x'')" and index = None, OF preA]
  note tB = conversion_once [where E = default_env and d = 5 and d' = "Suc 0"
      and parent = "Some 0" and key = "Some (ascii ''y'')" and index = None, OF preB]
  from shared_run [of 98 default_env]
  obtain s where s: "walk 100 default_env (initial shared_conversion) (Ref 0) None None None = Inr s"
      "invoked s = [1]"
    by auto
  from tA [THEN conjunct1] s(1) have "distinct (invoked s)" by blast
  with s have one: "\<exists>s. walk 100 default_env (initial shared_conversion) (Ref 0) None None None = Inr s
        \<and> invoked s = [1] \<and> distinct (invoked s)"
    by blast
  have fresh: "Map_get (mapObjToJSON ?A) (Ref 1) = None
      \<and> call (heap ?A) (get_toJSON ?ob) = Inr (Ref 3)"
    by (simp add: initial_def shared_conversion_def table_defs keys_defs call_def as_function_def)
  have first: "(case (case string_value (heap ?A) (Ref 3) of
                     None \<Rightarrow> (Ref 3, heap ?A)
                   | Some text \<Rightarrow>
                       (case JSON_parse default_env text (heap ?A) of
                          Some parsed \<Rightarrow> parsed
                        | None \<Rightarrow> (Ref 1, heap ?A))) of
               (json, h') \<Rightarrow>
                 splice_json
                   (?A\<lparr>invoked := invoked ?A @ [1], heap := h',
                       mapObjToJSON := Map_set (mapObjToJSON ?A) (Ref 1) json,
                       counts := Map_set (counts ?A) json (Count 1)\<rparr>)
                   (Some 0) (Some (ascii ''x'')) None json) = Inr ?B"
    by (simp add: eval_simps fun_eq_iff)
  have cached: "Map_get (mapObjToJSON ?B) (Ref 1) = Some (Ref 3)"
    by (simp add: table_defs)
  have again: "splice_json (?B\<lparr>counts := Map_set (counts ?B) (Ref 3) (plus1 (Map_get (counts ?B) (Ref 3)))\<rparr>)
              (Some 0) (Some (ascii ''y'')) None (Ref 3) = Inr ?C"
    by (simp add: eval_simps fun_eq_iff)
  have unnamed: "Map_get [] (Ref 1) = None"
    by (simp add: table_defs)
  have rendered: "(case call (heap ?A) (get_toJSON ?ob) of
               Inl e \<Rightarrow> Inl e
             | Inr r \<Rightarrow>
                 (case (case string_value (heap ?A) r of
                          None \<Rightarrow> stringify (Suc 0) default_env [] (heap ?A) r
                        | Some text \<Rightarrow>
                            (case JSON_parse default_env text (heap ?A) of
                               Some (parsed, h') \<Rightarrow> stringify (Suc 0) default_env [] h' parsed
                             | None \<Rightarrow> stringify (Suc 0) default_env [] (heap ?A) r)) of
                    Inl e \<Rightarrow> Inl e
                  | Inr (s, l) \<Rightarrow> Inr (s, 1 # l))) = Inr (ascii ''[]'', [1])"
    by (simp add: eval_simps)
  have hA: "heap ?A = shared_conversion"
    by (simp add: initial_def)
  from tA [THEN conjunct2, THEN conjunct2, THEN conjunct2, THEN conjunct1, rule_format, OF fresh]
  have two: "walk (Suc 5) default_env ?A (Ref 1) (Some 0) (Some (ascii ''x'')) None = Inr ?B"
    unfolding first .
  from tB [THEN conjunct2, THEN conjunct2, THEN conjunct1, rule_format, OF cached]
  have three: "walk (Suc 5) default_env ?B (Ref 1) (Some 0) (Some (ascii ''y'')) None = Inr ?C"
    unfolding again .
  from tA [THEN conjunct2, THEN conjunct2, THEN conjunct2, THEN conjunct2, rule_format, OF unnamed]
  have four: "stringify (Suc (Suc 0)) default_env [] shared_conversion (Ref 1) = Inr (ascii ''[]'', [1])"
    unfolding rendered unfolding hA .
  from one two three four show ?thesis by (intro conjI)
qed

section \<open>Cycles\<close>








section \<open>String literals\<close>




























end
